theory Spec2Isabelle
  imports Complex_Main
begin

section \<open>The periodicity fitter of analyzer.js\<close>

text \<open>
  JavaScript numbers are IEEE doubles. They are modelled here by the real numbers:
  every statement below is about the algorithm in exact arithmetic, with
  \<open>Math.cos\<close>, \<open>Math.sin\<close>, \<open>Math.sqrt\<close> the real functions and NaN and
  signed zeros left out. The one place where the double infinity decides the control
  flow, the quotient \<open>N / maxScale\<close> at \<open>maxScale = 0\<close>, is written out.
\<close>

subsection \<open>calculateDFTBin\<close>

record dftBin =
  magnitude :: real
  phase :: real

text \<open>\<open>Math.atan2(y, x)\<close> on the reals, with values in \<open>(-pi, pi]\<close>.\<close>

definition atan2 :: "real \<Rightarrow> real \<Rightarrow> real" where
  "atan2 y x =
     (if 0 < x then arctan (y / x)
      else if x < 0 then (if 0 \<le> y then arctan (y / x) + pi else arctan (y / x) - pi)
      else if 0 < y then pi / 2
      else if y < 0 then - (pi / 2)
      else 0)"

text \<open>
  The loop \<open>for (n = 0; n < N; n++)\<close> of calculateDFTBin: it walks the signal with its
  index \<open>n\<close> and adds \<open>val * cos angle\<close> and \<open>val * sin angle\<close> to the two sums.
\<close>

fun dftLoop :: "real \<Rightarrow> nat \<Rightarrow> real list \<Rightarrow> real \<times> real \<Rightarrow> real \<times> real" where
  "dftLoop angleStep n [] (sumRe, sumIm) = (sumRe, sumIm)"
| "dftLoop angleStep n (val # rest) (sumRe, sumIm) =
     (let angle = angleStep * real n
      in dftLoop angleStep (Suc n) rest (sumRe + val * cos angle, sumIm + val * sin angle))"

definition calculateDFTBin :: "real list \<Rightarrow> real \<Rightarrow> dftBin" where
  "calculateDFTBin signal k =
     (let N = length signal;
          angleStep = - 2 * pi * k / real N;
          (sumRe, sumIm) = dftLoop angleStep 0 signal (0, 0)
      in \<lparr> magnitude = sqrt (sumRe * sumRe + sumIm * sumIm),
           phase = atan2 sumIm sumRe \<rparr>)"

subsection \<open>analyzePeriodicity\<close>

record estimate =
  scale :: real
  offset :: real
  confidence :: real

text \<open>\<open>minK = Math.floor(N / maxScale) < 1 ? 1 : Math.floor(N / maxScale)\<close>, for
  \<open>maxScale \<noteq> 0\<close>, and \<open>maxK = Math.floor(N / 2)\<close>.\<close>

definition minK :: "nat \<Rightarrow> real \<Rightarrow> nat" where
  "minK N maxScale =
     (if \<lfloor>real N / maxScale\<rfloor> < 1 then 1 else nat \<lfloor>real N / maxScale\<rfloor>)"

definition maxK :: "nat \<Rightarrow> nat" where
  "maxK N = N div 2"

text \<open>
  The bins \<open>k = minK, ..., maxK\<close> of the coarse sweep and of the fallback, and the bins
  \<open>k = minK + 1, ..., maxK - 1\<close> of the peak scan. In JavaScript \<open>N / 0\<close> is
  \<open>Infinity\<close> for \<open>N > 0\<close>, so at \<open>maxScale = 0\<close> no loop over the bins runs at all
  (HOL's \<open>x / 0 = 0\<close> would say otherwise).
\<close>

definition sweepBins :: "nat \<Rightarrow> real \<Rightarrow> nat list" where
  "sweepBins N maxScale = (if maxScale = 0 then [] else [minK N maxScale ..< Suc (maxK N)])"

definition scanBins :: "nat \<Rightarrow> real \<Rightarrow> nat list" where
  "scanBins N maxScale = (if maxScale = 0 then [] else [Suc (minK N maxScale) ..< maxK N])"

text \<open>Step 1, the coarse sweep: the state is \<open>(mageVals, globalMax)\<close>.\<close>

fun sweep :: "real list \<Rightarrow> nat list \<Rightarrow> real list \<times> real \<Rightarrow> real list \<times> real" where
  "sweep data [] (mageVals, globalMax) = (mageVals, globalMax)"
| "sweep data (k # ks) (mageVals, globalMax) =
     (let res = calculateDFTBin data (real k)
      in sweep data ks
           (mageVals[k := magnitude res],
            if magnitude res > globalMax then magnitude res else globalMax))"

definition coarseSweep :: "real list \<Rightarrow> real \<Rightarrow> real list \<times> real" where
  "coarseSweep data maxScale =
     (let N = length data
      in sweep data (sweepBins N maxScale) (replicate (maxK N + 2) 0, 0))"

text \<open>The parabolic interpolation at bin \<open>k\<close>: the value given to \<open>chosenK\<close>.\<close>

definition parabolic :: "real list \<Rightarrow> nat \<Rightarrow> real" where
  "parabolic mageVals k =
     (let y1 = mageVals ! (k - 1);
          y2 = mageVals ! k;
          y3 = mageVals ! (k + 1);
          d = y1 - 2 * y2 + y3
      in if d \<noteq> 0 then real k + (y1 - y3) / (2 * d) else real k)"

text \<open>
  Step 2, the scan for the first significant peak. The state is \<open>(chosenK, bestMag)\<close>,
  \<open>(-1, -1)\<close> before the loop; the loop breaks at the first bin it accepts.
\<close>

fun findPeak :: "real list \<Rightarrow> real \<Rightarrow> nat list \<Rightarrow> real \<times> real" where
  "findPeak mageVals threshold [] = (- 1, - 1)"
| "findPeak mageVals threshold (k # ks) =
     (if mageVals ! k > mageVals ! (k - 1) \<and> mageVals ! k > mageVals ! (k + 1)
      then (if mageVals ! k > threshold
            then (parabolic mageVals k, mageVals ! k)
            else findPeak mageVals threshold ks)
      else findPeak mageVals threshold ks)"

text \<open>The test of the scan at bin \<open>k\<close> (its two nested conditions): a strict
  local maximum above the threshold.\<close>

definition accepts :: "real list \<Rightarrow> real \<Rightarrow> nat \<Rightarrow> bool" where
  "accepts mageVals threshold k =
     (mageVals ! k > mageVals ! (k - 1) \<and> mageVals ! k > mageVals ! (k + 1) \<and>
      mageVals ! k > threshold)"

text \<open>The fallback loop: the first bin whose magnitude is \<open>globalMax\<close>, or the
  \<open>chosenK = -1\<close> it started with.\<close>

fun globalMaxBin :: "real list \<Rightarrow> real \<Rightarrow> nat list \<Rightarrow> real" where
  "globalMaxBin mageVals globalMax [] = - 1"
| "globalMaxBin mageVals globalMax (k # ks) =
     (if mageVals ! k = globalMax then real k else globalMaxBin mageVals globalMax ks)"

definition peakScan :: "real list \<Rightarrow> real \<Rightarrow> real \<times> real" where
  "peakScan data maxScale =
     (let (mageVals, globalMax) = coarseSweep data maxScale;
          threshold = globalMax * 0.4
      in findPeak mageVals threshold (scanBins (length data) maxScale))"

text \<open>\<open>chosenK\<close> and \<open>bestMag\<close> after the scan and the fallback.\<close>

definition chooseK :: "real list \<Rightarrow> real \<Rightarrow> real \<times> real" where
  "chooseK data maxScale =
     (let (mageVals, globalMax) = coarseSweep data maxScale;
          (chosenK, bestMag) = peakScan data maxScale
      in if chosenK = - 1
         then (globalMaxBin mageVals globalMax (sweepBins (length data) maxScale), globalMax)
         else (chosenK, bestMag))"

text \<open>
  The two normalising loops \<open>while (offset < 0) offset += scale\<close> and
  \<open>while (offset >= scale) offset -= scale\<close>. Either may run forever; \<open>None\<close> is
  the loop that does not return.
\<close>

partial_function (option) normalizeUp :: "real \<Rightarrow> real \<Rightarrow> real option" where
  "normalizeUp off sc = (if off < 0 then normalizeUp (off + sc) sc else Some off)"

partial_function (option) normalizeDown :: "real \<Rightarrow> real \<Rightarrow> real option" where
  "normalizeDown off sc = (if off \<ge> sc then normalizeDown (off - sc) sc else Some off)"

text \<open>Step 3: the phase at \<open>chosenK\<close>, the scale, the offset before the loops.\<close>

definition finalScale :: "real list \<Rightarrow> real \<Rightarrow> real" where
  "finalScale data maxScale = real (length data) / fst (chooseK data maxScale)"

definition rawOffset :: "real list \<Rightarrow> real \<Rightarrow> real" where
  "rawOffset data maxScale =
     (let finalRes = calculateDFTBin data (fst (chooseK data maxScale));
          finalPhase = phase finalRes
      in (- finalPhase * finalScale data maxScale) / (2 * pi))"

definition analyzePeriodicity :: "real list \<Rightarrow> real \<Rightarrow> estimate option" where
  "analyzePeriodicity data maxScale =
     (let totalEnergy = sum_list data
      in if totalEnergy < 0.0001
         then Some \<lparr> scale = 1, offset = 0, confidence = 0 \<rparr>
         else
           (let finalRes = calculateDFTBin data (fst (chooseK data maxScale));
                finalMag = magnitude finalRes;
                sc = finalScale data maxScale
            in case normalizeUp (rawOffset data maxScale) sc of
                 None \<Rightarrow> None
               | Some off1 \<Rightarrow>
                  (case normalizeDown off1 sc of
                     None \<Rightarrow> None
                   | Some off2 \<Rightarrow>
                       Some \<lparr> scale = sc, offset = off2,
                              confidence = finalMag / (totalEnergy / sc) \<rparr>)))"

section \<open>The edge projector of main.js\<close>

text \<open>
  A GLSL \<open>vec4\<close> (and a Unity \<open>Color\<close>) is four numbers; the image is the
  texture \<open>uImage\<close> with its size, read with \<open>texelFetch\<close> at integer coordinates.
  GLSL and C# floats are modelled by the reals, like the doubles above; only the
  grid index of the C# preview pass is rounded to binary32 (\<open>floatGridIndex\<close>).
\<close>

datatype vec4 = Vec4 (chR: real) (chG: real) (chB: real) (chA: real)

record image =
  imgWidth :: nat
  imgHeight :: nat
  texelFetch :: "int \<Rightarrow> int \<Rightarrow> vec4"

text \<open>\<open>diff = abs(c.rgb - l.rgb)\<close> and \<open>diff.r + diff.g + diff.b\<close>.\<close>

definition absDiffRGB :: "vec4 \<Rightarrow> vec4 \<Rightarrow> real" where
  "absDiffRGB c l = \<bar>chR c - chR l\<bar> + \<bar>chG c - chG l\<bar> + \<bar>chB c - chB l\<bar>"

text \<open>The fragment shader \<open>fsColDiffSource\<close> at the fragment of column \<open>x\<close>.\<close>

definition fsColDiff :: "image \<Rightarrow> int \<Rightarrow> vec4" where
  "fsColDiff img x =
     (if x \<ge> int (imgWidth img) then Vec4 0 0 0 0
      else
        (let prevX = (if x > 0 then x - 1 else 0);
             s = (\<Sum>y\<leftarrow>[0 ..< imgHeight img].
                    absDiffRGB (texelFetch img x (int y)) (texelFetch img prevX (int y)))
         in Vec4 s 0 0 1))"

text \<open>The fragment shader \<open>fsRowDiffSource\<close> at the fragment of row \<open>y\<close>.\<close>

definition fsRowDiff :: "image \<Rightarrow> int \<Rightarrow> vec4" where
  "fsRowDiff img y =
     (if y \<ge> int (imgHeight img) then Vec4 0 0 0 0
      else
        (let prevY = (if y > 0 then y - 1 else 0);
             s = (\<Sum>x\<leftarrow>[0 ..< imgWidth img].
                    absDiffRGB (texelFetch img (int x) y) (texelFetch img (int x) prevY))
         in Vec4 s 0 0 1))"

text \<open>\<open>colData\<close> and \<open>rowData\<close> of runAnalysis: the red channel of the
  \<open>imgWidth x 1\<close> and \<open>1 x imgHeight\<close> render targets, read back with readPixels.\<close>

definition colData :: "image \<Rightarrow> real list" where
  "colData img = map (\<lambda>x. chR (fsColDiff img (int x))) [0 ..< imgWidth img]"

definition rowData :: "image \<Rightarrow> real list" where
  "rowData img = map (\<lambda>y. chR (fsRowDiff img (int y))) [0 ..< imgHeight img]"

text \<open>Step 3 of runAnalysis: the two fits \<open>(resX, resY)\<close>.\<close>

definition runAnalysis :: "image \<Rightarrow> real \<Rightarrow> estimate option \<times> estimate option" where
  "runAnalysis img maxScale =
     (analyzePeriodicity (colData img) maxScale, analyzePeriodicity (rowData img) maxScale)"

section \<open>The grid\<close>

text \<open>updateUI of main.js: the first and the last grid index along one axis of
  \<open>n\<close> pixels, \<open>Math.floor((0 - offset) / scale)\<close> and
  \<open>Math.floor((n - 1 - offset) / scale)\<close>.\<close>

definition minGrid :: "real \<Rightarrow> real \<Rightarrow> int" where
  "minGrid off sc = \<lfloor>(0 - off) / sc\<rfloor>"

definition maxGrid :: "nat \<Rightarrow> real \<Rightarrow> real \<Rightarrow> int" where
  "maxGrid n off sc = \<lfloor>(real n - 1 - off) / sc\<rfloor>"

text \<open>The grid index of pixel \<open>x\<close>, \<open>floor((x - ox) / sx)\<close>, in exact arithmetic (the
  formula of line 209 of FindPixelResolutionCli.cs, the \<open>cellIndex\<close> of the grid).\<close>

definition gridIndex :: "int \<Rightarrow> real \<Rightarrow> real \<Rightarrow> int" where
  "gridIndex x ox sx = \<lfloor>(real_of_int x - ox) / sx\<rfloor>"

definition cellIndex :: "real \<Rightarrow> real \<Rightarrow> real \<Rightarrow> real \<Rightarrow> int \<Rightarrow> int \<Rightarrow> int \<times> int" where
  "cellIndex sx ox sy oy px py = (gridIndex px ox sx, gridIndex py oy sy)"

section \<open>The low-resolution shader of main.js\<close>

record uniforms =
  uScaleX :: real
  uOffsetX :: real
  uScaleY :: real
  uOffsetY :: real
  uGridOffsetX :: real
  uGridOffsetY :: real
  uSampleCenterOnly :: bool

text \<open>The GLSL conversion \<open>int(x)\<close> of a float drops the fractional part.\<close>

definition glslInt :: "real \<Rightarrow> int" where
  "glslInt x = (if 0 \<le> x then \<lfloor>x\<rfloor> else \<lceil>x\<rceil>)"

text \<open>\<open>clamp(x, lo, hi) = min(max(x, lo), hi)\<close>.\<close>

definition clamp :: "int \<Rightarrow> int \<Rightarrow> int \<Rightarrow> int" where
  "clamp x lo hi = min (max x lo) hi"

definition vadd :: "vec4 \<Rightarrow> vec4 \<Rightarrow> vec4" where
  "vadd p q = Vec4 (chR p + chR q) (chG p + chG q) (chB p + chB q) (chA p + chA q)"

definition vdiv :: "vec4 \<Rightarrow> real \<Rightarrow> vec4" where
  "vdiv p c = Vec4 (chR p / c) (chG p / c) (chB p / c) (chA p / c)"

definition centerX :: "uniforms \<Rightarrow> int \<Rightarrow> real" where
  "centerX u fx =
     (let kx = real_of_int fx + uGridOffsetX u
      in uOffsetX u + kx * uScaleX u + uScaleX u * 0.5)"

definition centerY :: "uniforms \<Rightarrow> int \<Rightarrow> real" where
  "centerY u fy =
     (let ky = real_of_int fy + uGridOffsetY u
      in uOffsetY u + ky * uScaleY u + uScaleY u * 0.5)"

text \<open>The texels the two nested loops of the box filter add up, in the order of
  the loops.\<close>

definition boxTexels :: "image \<Rightarrow> uniforms \<Rightarrow> int \<Rightarrow> int \<Rightarrow> vec4 list" where
  "boxTexels img u fx fy =
     (let rx = uScaleX u * 0.3;
          ry = uScaleY u * 0.3;
          minX = max 0 \<lceil>centerX u fx - rx\<rceil>;
          maxX = min (int (imgWidth img) - 1) \<lfloor>centerX u fx + rx\<rfloor>;
          minY = max 0 \<lceil>centerY u fy - ry\<rceil>;
          maxY = min (int (imgHeight img) - 1) \<lfloor>centerY u fy + ry\<rfloor>
      in concat (map (\<lambda>sy. map (\<lambda>sx. texelFetch img sx sy) [minX .. maxX]) [minY .. maxY]))"

text \<open>The nearest-pixel lookup of the shader, written twice in the source.\<close>

definition centerTexel :: "image \<Rightarrow> uniforms \<Rightarrow> int \<Rightarrow> int \<Rightarrow> vec4" where
  "centerTexel img u fx fy =
     (let cx = clamp (glslInt (centerX u fx)) 0 (int (imgWidth img) - 1);
          cy = clamp (glslInt (centerY u fy)) 0 (int (imgHeight img) - 1)
      in texelFetch img cx cy)"

text \<open>The fragment shader \<open>fsDownsampleSource\<close> at the fragment \<open>(fx, fy) =
  floor(gl_FragCoord.xy)\<close>.\<close>

definition fsDownsample :: "image \<Rightarrow> uniforms \<Rightarrow> int \<Rightarrow> int \<Rightarrow> vec4" where
  "fsDownsample img u fx fy =
     (if uSampleCenterOnly u then centerTexel img u fx fy
      else
        (let texels = boxTexels img u fx fy;
             s = foldl vadd (Vec4 0 0 0 0) texels;
             count = real (length texels)
         in if count > 0 then vdiv s count else centerTexel img u fx fy))"

section \<open>ReconstructImage of FindPixelResolutionCli.cs\<close>

text \<open>
  \<open>Mathf.RoundToInt\<close> rounds to the nearest integer and a half to the even
  neighbour; \<open>Mathf.Clamp(v, lo, hi)\<close>.
\<close>

definition roundToInt :: "real \<Rightarrow> int" where
  "roundToInt f =
     (let fl = \<lfloor>f\<rfloor>
      in if f - real_of_int fl < 1 / 2 then fl
         else if f - real_of_int fl > 1 / 2 then fl + 1
         else if even fl then fl else fl + 1)"

definition mathfClamp :: "int \<Rightarrow> int \<Rightarrow> int \<Rightarrow> int" where
  "mathfClamp v lo hi = (if v < lo then lo else if v > hi then hi else v)"





text \<open>The pixels of the sample box of a cell that lie in the image, in the order
  of the two loops (lines 239-250).\<close>

definition boxPixels ::
  "nat \<Rightarrow> nat \<Rightarrow> vec4 list \<Rightarrow> real \<Rightarrow> real \<Rightarrow> real \<Rightarrow> real \<Rightarrow> vec4 list" where
  "boxPixels w h srcPixels cX cY rx ry =
     (let xMin = \<lceil>cX - rx\<rceil>;
          xMax = \<lfloor>cX + rx\<rfloor>;
          yMin = \<lceil>cY - ry\<rceil>;
          yMax = \<lfloor>cY + ry\<rfloor>
      in concat (map (\<lambda>sy_loop.
           if sy_loop < 0 \<or> sy_loop \<ge> int h then []
           else (let rowOffset = sy_loop * int w
                 in concat (map (\<lambda>sx_loop.
                      if sx_loop < 0 \<or> sx_loop \<ge> int w then []
                      else [srcPixels ! nat (rowOffset + sx_loop)]) [xMin .. xMax])))
           [yMin .. yMax]))"

text \<open>The colour of the grid cell \<open>(gridX, gridY)\<close> (lines 222-262): the average
  over the box, or the pixel nearest to the centre when the box holds no pixel.\<close>

definition cellColor ::
  "nat \<Rightarrow> nat \<Rightarrow> vec4 list \<Rightarrow> real \<Rightarrow> real \<Rightarrow> real \<Rightarrow> real \<Rightarrow> int \<Rightarrow> int \<Rightarrow> vec4" where
  "cellColor w h srcPixels sx sy ox oy gridX gridY =
     (let cX = ox + real_of_int gridX * sx + sx * 0.5;
          cY = oy + real_of_int gridY * sy + sy * 0.5;
          rx = sx * 0.3;
          ry = sy * 0.3;
          box = boxPixels w h srcPixels cX cY rx ry;
          s = foldl vadd (Vec4 0 0 0 0) box;
          count = length box
      in if count > 0 then vdiv s (real count)
         else
           (let px = mathfClamp (roundToInt cX) 0 (int w - 1);
                py = mathfClamp (roundToInt cY) 0 (int h - 1)
            in srcPixels ! nat (py * int w + px)))"

text \<open>
  The grid index of a pixel decides which cells the pass visits, and there the
  rounding of the C# \<open>float\<close> matters. \<open>fl32\<close> rounds a real to the nearest binary32
  number, ties to even (as \<open>roundToInt\<close> does on the scaled value); numbers below the
  normal range get the spacing \<open>2^-149\<close>, overflow to infinity is left out.
  \<open>x\<close>, \<open>ox\<close> and \<open>sx\<close> are binary32 numbers already.
\<close>

definition pow2 :: "int \<Rightarrow> real" where
  "pow2 e = (if 0 \<le> e then 2 ^ nat e else 1 / 2 ^ nat (- e))"

definition ulp32 :: "real \<Rightarrow> real" where
  "ulp32 x = pow2 (max \<lfloor>log 2 \<bar>x\<bar>\<rfloor> (- 126) - 23)"

definition fl32 :: "real \<Rightarrow> real" where
  "fl32 x = (if x = 0 then 0 else real_of_int (roundToInt (x / ulp32 x)) * ulp32 x)"

text \<open>\<open>Mathf.FloorToInt((x - ox) / sx)\<close> as the C# computes it: the \<open>int\<close> is
  converted, and the difference and the quotient are rounded.\<close>

definition floatGridIndex :: "int \<Rightarrow> real \<Rightarrow> real \<Rightarrow> int" where
  "floatGridIndex x ox sx = \<lfloor>fl32 (fl32 (fl32 (real_of_int x) - ox) / sx)\<rfloor>"


text \<open>The preview pass (lines 186-269): the safety clamp of the scales, then the
  loops over the rows and the columns.\<close>

definition safetyClamp :: "real \<Rightarrow> real" where
  "safetyClamp s = (if s < 1 then 1 else s)"





section \<open>The normalising loops\<close>

lemma normalizeUp_Some:
  assumes "normalizeUp off sc = Some y"
  shows "0 \<le> y \<and> (\<exists>i::int. y = off + real_of_int i * sc) \<and> (0 \<le> off \<longrightarrow> y = off)"
proof (rule normalizeUp.raw_induct[where P = "\<lambda>a s r. 0 \<le> r \<and> (\<exists>i::int. r = a + real_of_int i * s) \<and> (0 \<le> a \<longrightarrow> r = a)", OF _ assms])
  fix f :: "real \<Rightarrow> real \<Rightarrow> real option" and a s r
  assume IH: "\<And>a s r. f a s = Some r \<Longrightarrow> 0 \<le> r \<and> (\<exists>i::int. r = a + real_of_int i * s) \<and> (0 \<le> a \<longrightarrow> r = a)"
    and step: "(if a < 0 then f (a + s) s else Some a) = Some r"
  show "0 \<le> r \<and> (\<exists>i::int. r = a + real_of_int i * s) \<and> (0 \<le> a \<longrightarrow> r = a)"
  proof (cases "a < 0")
    case True
    with step have "f (a + s) s = Some r" by simp
    from IH[OF this] obtain i :: int where i: "0 \<le> r" "r = a + s + real_of_int i * s"
      by blast
    have "r = a + real_of_int (i + 1) * s" using i(2) by (simp add: algebra_simps)
    then have "\<exists>i::int. r = a + real_of_int i * s" by blast
    then show ?thesis using i(1) True by simp
  next
    case False
    with step have ra: "r = a" by simp
    have "\<exists>i::int. r = a + real_of_int i * s" by (rule exI[of _ 0]) (simp add: ra)
    then show ?thesis using False ra by simp
  qed
qed

lemma normalizeDown_Some:
  assumes "normalizeDown off sc = Some y"
  shows "y < sc \<and> (\<exists>i::int. y = off + real_of_int i * sc) \<and> (0 \<le> off \<longrightarrow> 0 \<le> y)"
proof (rule normalizeDown.raw_induct[where P = "\<lambda>a s r. r < s \<and> (\<exists>i::int. r = a + real_of_int i * s) \<and> (0 \<le> a \<longrightarrow> 0 \<le> r)", OF _ assms])
  fix f :: "real \<Rightarrow> real \<Rightarrow> real option" and a s r
  assume IH: "\<And>a s r. f a s = Some r \<Longrightarrow> r < s \<and> (\<exists>i::int. r = a + real_of_int i * s) \<and> (0 \<le> a \<longrightarrow> 0 \<le> r)"
    and step: "(if a \<ge> s then f (a - s) s else Some a) = Some r"
  show "r < s \<and> (\<exists>i::int. r = a + real_of_int i * s) \<and> (0 \<le> a \<longrightarrow> 0 \<le> r)"
  proof (cases "a \<ge> s")
    case True
    with step have "f (a - s) s = Some r" by simp
    from IH[OF this] obtain i :: int where i: "r < s" "r = a - s + real_of_int i * s" "0 \<le> a - s \<longrightarrow> 0 \<le> r"
      by blast
    have "r = a + real_of_int (i - 1) * s" using i(2) by (simp add: algebra_simps)
    then have "\<exists>i::int. r = a + real_of_int i * s" by blast
    then show ?thesis using i(1,3) True by auto
  next
    case False
    with step have ra: "r = a" by simp
    have "\<exists>i::int. r = a + real_of_int i * s" by (rule exI[of _ 0]) (simp add: ra)
    then show ?thesis using False ra by simp
  qed
qed

lemma normalizeUp_terminates:
  assumes "0 < sc"
  shows "\<exists>y. normalizeUp off sc = Some y"
proof (induction "nat \<lceil>- off / sc\<rceil>" arbitrary: off rule: less_induct)
  case less
  show ?case
  proof (cases "off < 0")
    case True
    have pos: "0 < - off / sc" using True assms by (simp add: divide_neg_pos)
    then have c1: "1 \<le> \<lceil>- off / sc\<rceil>" by linarith
    have "- (off + sc) / sc = - off / sc - 1" using assms by (simp add: field_simps)
    then have "\<lceil>- (off + sc) / sc\<rceil> = \<lceil>- off / sc\<rceil> - 1" by simp
    then have "nat \<lceil>- (off + sc) / sc\<rceil> < nat \<lceil>- off / sc\<rceil>" using c1 by linarith
    from less[OF this] obtain y where "normalizeUp (off + sc) sc = Some y" by blast
    then show ?thesis using True by (subst normalizeUp.simps) simp
  next
    case False
    then show ?thesis by (subst normalizeUp.simps) simp
  qed
qed

lemma normalizeDown_terminates:
  assumes "0 < sc"
  shows "\<exists>y. normalizeDown off sc = Some y"
proof (induction "nat \<lfloor>off / sc\<rfloor>" arbitrary: off rule: less_induct)
  case less
  show ?case
  proof (cases "off \<ge> sc")
    case True
    have "1 \<le> off / sc" using True assms by (simp add: field_simps)
    then have c1: "1 \<le> \<lfloor>off / sc\<rfloor>" by linarith
    have "(off - sc) / sc = off / sc - 1" using assms by (simp add: field_simps)
    then have "\<lfloor>(off - sc) / sc\<rfloor> = \<lfloor>off / sc\<rfloor> - 1" by simp
    then have "nat \<lfloor>(off - sc) / sc\<rfloor> < nat \<lfloor>off / sc\<rfloor>" using c1 by linarith
    from less[OF this] obtain y where "normalizeDown (off - sc) sc = Some y" by blast
    then show ?thesis using True by (subst normalizeDown.simps) simp
  next
    case False
    then show ?thesis by (subst normalizeDown.simps) simp
  qed
qed

lemma normalizeDown_diverges:
  assumes "sc \<le> 0" "sc \<le> off"
  shows "normalizeDown off sc = None"
proof (cases "normalizeDown off sc")
  case None then show ?thesis .
next
  case (Some y)
  have "\<not> (s \<le> 0 \<and> s \<le> a)" if "normalizeDown a s = Some r" for a s r
  proof (rule normalizeDown.raw_induct[where P = "\<lambda>a s r. \<not> (s \<le> 0 \<and> s \<le> a)", OF _ that])
    fix f :: "real \<Rightarrow> real \<Rightarrow> real option" and a s r
    assume IH: "\<And>a s r. f a s = Some r \<Longrightarrow> \<not> (s \<le> 0 \<and> s \<le> a)"
      and step: "(if a \<ge> s then f (a - s) s else Some a) = Some r"
    show "\<not> (s \<le> 0 \<and> s \<le> a)"
    proof (cases "a \<ge> s")
      case True
      with step have "f (a - s) s = Some r" by simp
      from IH[OF this] show ?thesis by auto
    next
      case False then show ?thesis by simp
    qed
  qed
  from this[OF Some] assms show ?thesis by simp
qed

lemma normalizeUp_diverges:
  assumes "sc \<le> 0" "off < 0"
  shows "normalizeUp off sc = None"
proof (cases "normalizeUp off sc")
  case None then show ?thesis .
next
  case (Some y)
  have "\<not> (s \<le> 0 \<and> a < 0)" if "normalizeUp a s = Some r" for a s r
  proof (rule normalizeUp.raw_induct[where P = "\<lambda>a s r. \<not> (s \<le> 0 \<and> a < 0)", OF _ that])
    fix f :: "real \<Rightarrow> real \<Rightarrow> real option" and a s r
    assume IH: "\<And>a s r. f a s = Some r \<Longrightarrow> \<not> (s \<le> 0 \<and> a < 0)"
      and step: "(if a < 0 then f (a + s) s else Some a) = Some r"
    show "\<not> (s \<le> 0 \<and> a < 0)"
    proof (cases "a < 0")
      case True
      with step have "f (a + s) s = Some r" by simp
      from IH[OF this] True show ?thesis by auto
    next
      case False then show ?thesis by simp
    qed
  qed
  from this[OF Some] assms show ?thesis by simp
qed

text \<open>For a positive scale each loop returns, and the two together reduce the offset
  modulo the scale.\<close>

lemma normalizeUp_eq:
  assumes "0 < sc"
  shows "normalizeUp off sc
           = Some (if off < 0 then off - real_of_int \<lfloor>off / sc\<rfloor> * sc else off)"
proof (induction "nat \<lceil>- off / sc\<rceil>" arbitrary: off rule: less_induct)
  case less
  show ?case
  proof (cases "off < 0")
    case True
    have pos: "0 < - off / sc" using True assms by (simp add: divide_neg_pos)
    then have c1: "1 \<le> \<lceil>- off / sc\<rceil>" by linarith
    have "- (off + sc) / sc = - off / sc - 1" using assms by (simp add: field_simps)
    then have "\<lceil>- (off + sc) / sc\<rceil> = \<lceil>- off / sc\<rceil> - 1" by simp
    then have "nat \<lceil>- (off + sc) / sc\<rceil> < nat \<lceil>- off / sc\<rceil>" using c1 by linarith
    from less[OF this] have ih: "normalizeUp (off + sc) sc
        = Some (if off + sc < 0 then off + sc - real_of_int \<lfloor>(off + sc) / sc\<rfloor> * sc else off + sc)" .
    have q: "(off + sc) / sc = off / sc + 1" using assms by (simp add: field_simps)
    have fl: "\<lfloor>(off + sc) / sc\<rfloor> = \<lfloor>off / sc\<rfloor> + 1" unfolding q by simp
    have "(if off + sc < 0 then off + sc - real_of_int \<lfloor>(off + sc) / sc\<rfloor> * sc else off + sc)
          = off - real_of_int \<lfloor>off / sc\<rfloor> * sc"
    proof (cases "off + sc < 0")
      case True
      then show ?thesis by (simp add: fl algebra_simps)
    next
      case False
      have "- 1 \<le> off / sc" using False assms by (simp add: field_simps)
      moreover have "off / sc < 0" using \<open>off < 0\<close> assms by (simp add: divide_neg_pos)
      ultimately have "\<lfloor>off / sc\<rfloor> = - 1" by linarith
      then show ?thesis using False by simp
    qed
    with ih have "normalizeUp (off + sc) sc = Some (off - real_of_int \<lfloor>off / sc\<rfloor> * sc)" by simp
    then show ?thesis using True by (subst normalizeUp.simps) simp
  next
    case False
    then show ?thesis by (subst normalizeUp.simps) simp
  qed
qed

lemma normalizeDown_eq:
  assumes "0 < sc"
  shows "normalizeDown off sc
           = Some (if sc \<le> off then off - real_of_int \<lfloor>off / sc\<rfloor> * sc else off)"
proof (induction "nat \<lfloor>off / sc\<rfloor>" arbitrary: off rule: less_induct)
  case less
  show ?case
  proof (cases "off \<ge> sc")
    case True
    have "1 \<le> off / sc" using True assms by (simp add: field_simps)
    then have c1: "1 \<le> \<lfloor>off / sc\<rfloor>" by linarith
    have q: "(off - sc) / sc = off / sc - 1" using assms by (simp add: field_simps)
    then have fl: "\<lfloor>(off - sc) / sc\<rfloor> = \<lfloor>off / sc\<rfloor> - 1" by simp
    then have "nat \<lfloor>(off - sc) / sc\<rfloor> < nat \<lfloor>off / sc\<rfloor>" using c1 by linarith
    from less[OF this] have ih: "normalizeDown (off - sc) sc
        = Some (if sc \<le> off - sc then off - sc - real_of_int \<lfloor>(off - sc) / sc\<rfloor> * sc else off - sc)" .
    have "(if sc \<le> off - sc then off - sc - real_of_int \<lfloor>(off - sc) / sc\<rfloor> * sc else off - sc)
          = off - real_of_int \<lfloor>off / sc\<rfloor> * sc"
    proof (cases "sc \<le> off - sc")
      case True
      then show ?thesis by (simp add: fl algebra_simps)
    next
      case False
      have "off / sc < 2" using False assms by (simp add: field_simps)
      with \<open>1 \<le> off / sc\<close> have "\<lfloor>off / sc\<rfloor> = 1" by linarith
      then show ?thesis using False by simp
    qed
    with ih have "normalizeDown (off - sc) sc = Some (off - real_of_int \<lfloor>off / sc\<rfloor> * sc)" by simp
    then show ?thesis using True by (subst normalizeDown.simps) simp
  next
    case False
    then show ?thesis by (subst normalizeDown.simps) simp
  qed
qed

lemma floor_reduce:
  fixes a s :: real
  assumes "0 < s"
  shows "0 \<le> a - real_of_int \<lfloor>a / s\<rfloor> * s" and "a - real_of_int \<lfloor>a / s\<rfloor> * s < s"
proof -
  have "real_of_int \<lfloor>a / s\<rfloor> \<le> a / s" by (rule of_int_floor_le)
  then have "real_of_int \<lfloor>a / s\<rfloor> * s \<le> a" by (simp only: pos_le_divide_eq[OF assms])
  then show "0 \<le> a - real_of_int \<lfloor>a / s\<rfloor> * s" by simp
  have "a / s < real_of_int \<lfloor>a / s\<rfloor> + 1" by linarith
  then have "a < (real_of_int \<lfloor>a / s\<rfloor> + 1) * s" by (simp only: pos_divide_less_eq[OF assms])
  then show "a - real_of_int \<lfloor>a / s\<rfloor> * s < s" by (simp add: algebra_simps)
qed

lemma floor_reduce_unique:
  fixes a s z :: real
  assumes "0 < s" "0 \<le> z" "z < s" "z = a + real_of_int i * s"
  shows "z = a - real_of_int \<lfloor>a / s\<rfloor> * s"
proof -
  have "a / s = z / s - real_of_int i" using assms(1,4) by (simp add: field_simps)
  moreover have "0 \<le> z / s" "z / s < 1" using assms(1-3) by simp_all
  ultimately have "\<lfloor>a / s\<rfloor> = - i" by linarith
  then show ?thesis using assms(4) by simp
qed

lemma normalize_both:
  assumes "0 < sc"
  shows "\<exists>y. normalizeUp off sc = Some y \<and>
             normalizeDown y sc = Some (off - real_of_int \<lfloor>off / sc\<rfloor> * sc)"
proof (cases "off < 0")
  case True
  let ?z = "off - real_of_int \<lfloor>off / sc\<rfloor> * sc"
  have up: "normalizeUp off sc = Some ?z" using True by (simp add: normalizeUp_eq[OF assms])
  have "normalizeDown ?z sc = Some ?z"
    using floor_reduce(2)[OF assms, of off] by (simp add: normalizeDown_eq[OF assms])
  with up show ?thesis by blast
next
  case False
  then have up: "normalizeUp off sc = Some off" by (simp add: normalizeUp_eq[OF assms])
  have "normalizeDown off sc = Some (off - real_of_int \<lfloor>off / sc\<rfloor> * sc)"
  proof (cases "sc \<le> off")
    case True
    then show ?thesis by (simp add: normalizeDown_eq[OF assms])
  next
    case f: False
    have "0 \<le> off / sc" "off / sc < 1" using False f assms by simp_all
    then have "\<lfloor>off / sc\<rfloor> = 0" by linarith
    then show ?thesis using f by (simp add: normalizeDown_eq[OF assms])
  qed
  with up show ?thesis by blast
qed

section \<open>What the fitter returns\<close>

lemma analyze_flat:
  "sum_list data < 0.0001 \<Longrightarrow>
   analyzePeriodicity data maxScale = Some \<lparr> scale = 1, offset = 0, confidence = 0 \<rparr>"
  by (simp add: analyzePeriodicity_def)

lemma analyze_Some_D:
  assumes "analyzePeriodicity data maxScale = Some r" and "\<not> sum_list data < 0.0001"
  shows "scale r = finalScale data maxScale \<and> 0 \<le> offset r \<and> offset r < scale r \<and>
         (\<exists>i::int. offset r = rawOffset data maxScale + real_of_int i * scale r)"
proof -
  from assms obtain off1 off2 where
    up: "normalizeUp (rawOffset data maxScale) (finalScale data maxScale) = Some off1" and
    down: "normalizeDown off1 (finalScale data maxScale) = Some off2" and
    r: "scale r = finalScale data maxScale" "offset r = off2"
    by (auto simp: analyzePeriodicity_def Let_def split: option.splits)
  from normalizeUp_Some[OF up] obtain i :: int where
    u: "0 \<le> off1" "off1 = rawOffset data maxScale + real_of_int i * finalScale data maxScale"
    by blast
  from normalizeDown_Some[OF down] u(1) obtain j :: int where
    d: "off2 < finalScale data maxScale" "off2 = off1 + real_of_int j * finalScale data maxScale"
       "0 \<le> off2"
    by blast
  have "offset r = rawOffset data maxScale + real_of_int (i + j) * scale r"
    using u(2) d(2) r by (simp add: algebra_simps)
  then have "\<exists>i::int. offset r = rawOffset data maxScale + real_of_int i * scale r"
    by (rule exI)
  then show ?thesis using r d by simp
qed

lemma analyze_returns:
  assumes "\<not> sum_list data < 0.0001" and "0 < finalScale data maxScale"
  shows "\<exists>r. analyzePeriodicity data maxScale = Some r"
proof -
  obtain off1 where up: "normalizeUp (rawOffset data maxScale) (finalScale data maxScale) = Some off1"
    using normalizeUp_terminates[OF assms(2)] by blast
  obtain off2 where down: "normalizeDown off1 (finalScale data maxScale) = Some off2"
    using normalizeDown_terminates[OF assms(2)] by blast
  show ?thesis using assms(1) up down by (simp add: analyzePeriodicity_def Let_def)
qed

lemma analyze_diverges:
  assumes "\<not> sum_list data < 0.0001" and "finalScale data maxScale \<le> 0"
  shows "analyzePeriodicity data maxScale = None"
proof (cases "analyzePeriodicity data maxScale")
  case None then show ?thesis .
next
  case (Some r)
  from analyze_Some_D[OF Some assms(1)] assms(2) show ?thesis by linarith
qed

section \<open>The sweep, the peak scan and the fallback\<close>

lemma findPeak_accepts_iff:
  "findPeak m th (k # ks) =
     (if accepts m th k then (parabolic m k, m ! k) else findPeak m th ks)"
  by (simp add: accepts_def)

declare findPeak.simps(2) [simp del]

lemma parabolic_near:
  assumes "accepts m th k"
  shows "m ! (k - 1) - 2 * m ! k + m ! (k + 1) < 0"
    and "parabolic m k = real k + (m ! (k - 1) - m ! (k + 1)) / (2 * (m ! (k - 1) - 2 * m ! k + m ! (k + 1)))"
    and "real k - 1 / 2 < parabolic m k" and "parabolic m k < real k + 1 / 2"
proof -
  define y1 y2 y3 where "y1 = m ! (k - 1)" and "y2 = m ! k" and "y3 = m ! (k + 1)"
  define d where "d = y1 - 2 * y2 + y3"
  have gt: "y1 < y2" "y3 < y2" using assms by (simp_all add: accepts_def y1_def y2_def y3_def)
  then have d: "d < 0" by (simp add: d_def)
  then show "m ! (k - 1) - 2 * m ! k + m ! (k + 1) < 0" by (simp add: d_def y1_def y2_def y3_def)
  have p: "parabolic m k = real k + (y1 - y3) / (2 * d)"
    using d by (simp add: parabolic_def Let_def d_def y1_def y2_def y3_def)
  then show "parabolic m k = real k + (m ! (k - 1) - m ! (k + 1)) / (2 * (m ! (k - 1) - 2 * m ! k + m ! (k + 1)))"
    by (simp add: d_def y1_def y2_def y3_def)
  have "y1 - y3 < - d" "- (y1 - y3) < - d" using gt by (simp_all add: d_def)
  then have a: "\<bar>y1 - y3\<bar> < - d" by simp
  have "\<bar>(y1 - y3) / (2 * d)\<bar> = \<bar>y1 - y3\<bar> / (2 * (- d))" using d by (simp add: abs_mult)
  also have "\<dots> < 1 / 2" using a d by (simp add: field_simps)
  finally have b: "\<bar>(y1 - y3) / (2 * d)\<bar> < 1 / 2" .
  from b p show "real k - 1 / 2 < parabolic m k" by linarith
  from b p show "parabolic m k < real k + 1 / 2" by linarith
qed

lemma findPeak_none:
  "(\<forall>k\<in>set ks. \<not> accepts m th k) \<Longrightarrow> findPeak m th ks = (- 1, - 1)"
  by (induction ks) (simp_all add: findPeak_accepts_iff)

lemma findPeak_found:
  assumes "\<exists>k\<in>set ks. accepts m th k" and "sorted_wrt (<) ks"
  shows "\<exists>k\<in>set ks. accepts m th k \<and> (\<forall>j\<in>set ks. j < k \<longrightarrow> \<not> accepts m th j) \<and>
           findPeak m th ks = (parabolic m k, m ! k)"
  using assms
proof (induction ks)
  case Nil
  then show ?case by simp
next
  case (Cons a ks)
  show ?case
  proof (cases "accepts m th a")
    case True
    then show ?thesis using Cons.prems(2) by (auto simp: findPeak_accepts_iff)
  next
    case False
    with Cons.prems have ex: "\<exists>k\<in>set ks. accepts m th k" and srt: "sorted_wrt (<) ks"
      and lt: "\<forall>x\<in>set ks. a < x"
      by auto
    from Cons.IH[OF ex srt] obtain k where
      k: "k \<in> set ks" "accepts m th k" "\<forall>j\<in>set ks. j < k \<longrightarrow> \<not> accepts m th j"
         "findPeak m th ks = (parabolic m k, m ! k)"
      by blast
    have "\<forall>j\<in>set (a # ks). j < k \<longrightarrow> \<not> accepts m th j" using k(3) False by simp
    moreover have "findPeak m th (a # ks) = (parabolic m k, m ! k)"
      using False k(4) by (simp add: findPeak_accepts_iff)
    ultimately show ?thesis using k(1,2) by (intro bexI[of _ k]) simp_all
  qed
qed

lemma findPeak_found_iff:
  "fst (findPeak m th ks) \<noteq> - 1 \<longleftrightarrow> (\<exists>k\<in>set ks. accepts m th k)"
proof (induction ks)
  case Nil
  then show ?case by simp
next
  case (Cons a ks)
  show ?case
  proof (cases "accepts m th a")
    case True
    from parabolic_near(3)[OF True] have "parabolic m a \<noteq> - 1" by linarith
    then show ?thesis using True by (simp add: findPeak_accepts_iff)
  next
    case False
    then show ?thesis using Cons.IH by (simp add: findPeak_accepts_iff)
  qed
qed

lemma magnitude_nonneg: "0 \<le> magnitude (calculateDFTBin data k)"
  by (simp add: calculateDFTBin_def Let_def split: prod.split)

lemma sweep_length: "length (fst (sweep data ks (m, g))) = length m"
  by (induction ks arbitrary: m g) (simp_all add: Let_def)

lemma sweep_nth_out: "k \<notin> set ks \<Longrightarrow> fst (sweep data ks (m, g)) ! k = m ! k"
  by (induction ks arbitrary: m g) (simp_all add: Let_def)

lemma sweep_nth_in:
  "k \<in> set ks \<Longrightarrow> k < length m \<Longrightarrow>
   fst (sweep data ks (m, g)) ! k = magnitude (calculateDFTBin data (real k))"
proof (induction ks arbitrary: m g)
  case Nil
  then show ?case by simp
next
  case (Cons a ks)
  show ?case
  proof (cases "k \<in> set ks")
    case True
    then show ?thesis using Cons.IH[where m = "m[a := magnitude (calculateDFTBin data (real a))]"] Cons.prems(2)
      by (simp add: Let_def)
  next
    case False
    with Cons.prems have "k = a" by simp
    then show ?thesis using False Cons.prems(2) by (simp add: Let_def sweep_nth_out)
  qed
qed

lemma sweep_max:
  "g \<le> snd (sweep data ks (m, g)) \<and>
   (\<forall>k\<in>set ks. magnitude (calculateDFTBin data (real k)) \<le> snd (sweep data ks (m, g))) \<and>
   (snd (sweep data ks (m, g)) = g \<or>
    (\<exists>k\<in>set ks. snd (sweep data ks (m, g)) = magnitude (calculateDFTBin data (real k))))"
proof (induction ks arbitrary: m g)
  case Nil
  then show ?case by simp
next
  case (Cons a ks)
  define v where "v = magnitude (calculateDFTBin data (real a))"
  define g' where "g' = (if v > g then v else g)"
  have st: "sweep data (a # ks) (m, g) = sweep data ks (m[a := v], g')"
    by (simp add: Let_def v_def g'_def)
  from Cons.IH[where m = "m[a := v]" and g = g'] have
    ih: "g' \<le> snd (sweep data ks (m[a := v], g'))"
        "\<forall>k\<in>set ks. magnitude (calculateDFTBin data (real k)) \<le> snd (sweep data ks (m[a := v], g'))"
        "snd (sweep data ks (m[a := v], g')) = g' \<or>
         (\<exists>k\<in>set ks. snd (sweep data ks (m[a := v], g')) = magnitude (calculateDFTBin data (real k)))"
    by blast+
  have g': "g \<le> g'" "v \<le> g'" "g' = g \<or> g' = v" by (simp_all add: g'_def)
  have 1: "g \<le> snd (sweep data (a # ks) (m, g))" using ih(1) g'(1) unfolding st by linarith
  have 2: "\<forall>k\<in>set (a # ks). magnitude (calculateDFTBin data (real k)) \<le> snd (sweep data (a # ks) (m, g))"
    unfolding st using ih(1,2) g'(2) v_def by auto
  have 3: "snd (sweep data (a # ks) (m, g)) = g \<or>
    (\<exists>k\<in>set (a # ks). snd (sweep data (a # ks) (m, g)) = magnitude (calculateDFTBin data (real k)))"
    unfolding st using ih(3) g'(3) v_def by auto
  show ?case using 1 2 3 by blast
qed

lemma globalMaxBin_found:
  assumes "\<exists>k\<in>set ks. m ! k = g" and "sorted_wrt (<) ks"
  shows "\<exists>k\<in>set ks. m ! k = g \<and> (\<forall>j\<in>set ks. j < k \<longrightarrow> m ! j \<noteq> g) \<and>
           globalMaxBin m g ks = real k"
  using assms
proof (induction ks)
  case Nil
  then show ?case by simp
next
  case (Cons a ks)
  show ?case
  proof (cases "m ! a = g")
    case True
    then show ?thesis using Cons.prems(2) by auto
  next
    case False
    with Cons.prems have ex: "\<exists>k\<in>set ks. m ! k = g" and srt: "sorted_wrt (<) ks"
      by auto
    from Cons.IH[OF ex srt] obtain k where
      k: "k \<in> set ks" "m ! k = g" "\<forall>j\<in>set ks. j < k \<longrightarrow> m ! j \<noteq> g"
         "globalMaxBin m g ks = real k"
      by blast
    have "\<forall>j\<in>set (a # ks). j < k \<longrightarrow> m ! j \<noteq> g" using k(3) False by simp
    moreover have "globalMaxBin m g (a # ks) = real k" using False k(4) by simp
    ultimately show ?thesis using k(1,2) by (intro bexI[of _ k]) simp_all
  qed
qed

section \<open>The chosen bin\<close>

lemma minK_ge_1: "1 \<le> minK N maxScale"
proof (cases "\<lfloor>real N / maxScale\<rfloor> < 1")
  case True
  then show ?thesis by (simp only: minK_def if_True)
next
  case False
  then have "minK N maxScale = nat \<lfloor>real N / maxScale\<rfloor>" by (simp only: minK_def if_False)
  then show ?thesis using False by linarith
qed

lemma minK_gt_quotient:
  assumes "0 < maxScale"
  shows "real N < (real (minK N maxScale) + 1) * maxScale"
proof -
  have "real N / maxScale < real_of_int \<lfloor>real N / maxScale\<rfloor> + 1" by linarith
  also have "real_of_int \<lfloor>real N / maxScale\<rfloor> \<le> real (minK N maxScale)"
  proof (cases "\<lfloor>real N / maxScale\<rfloor> < 1")
    case True
    then have "minK N maxScale = 1" by (simp only: minK_def if_True)
    then show ?thesis using True by simp
  next
    case False
    then have "minK N maxScale = nat \<lfloor>real N / maxScale\<rfloor>" by (simp only: minK_def if_False)
    then show ?thesis using False by simp
  qed
  finally have "real N / maxScale < real (minK N maxScale) + 1" by simp
  then show ?thesis using assms by (simp add: field_simps)
qed

lemma set_scanBins:
  "set (scanBins N maxScale) = (if maxScale = 0 then {} else {k. minK N maxScale < k \<and> k < maxK N})"
  by (auto simp: scanBins_def)

lemma set_sweepBins:
  "set (sweepBins N maxScale) = (if maxScale = 0 then {} else {k. minK N maxScale \<le> k \<and> k \<le> maxK N})"
  by (auto simp: sweepBins_def)

lemma sorted_scanBins: "sorted_wrt (<) (scanBins N maxScale)"
  by (simp add: scanBins_def)

lemma sorted_sweepBins: "sorted_wrt (<) (sweepBins N maxScale)"
  by (simp add: sweepBins_def del: upt_Suc)

lemma coarseSweep_nth:
  assumes "maxScale \<noteq> 0" "minK (length data) maxScale \<le> k" "k \<le> maxK (length data)"
  shows "fst (coarseSweep data maxScale) ! k = magnitude (calculateDFTBin data (real k))"
proof -
  have "k \<in> set (sweepBins (length data) maxScale)" using assms by (simp add: set_sweepBins)
  moreover have "k < length (replicate (maxK (length data) + 2) (0::real))" using assms(3) by simp
  ultimately show ?thesis unfolding coarseSweep_def Let_def by (rule sweep_nth_in)
qed

lemma coarseSweep_max:
  shows "0 \<le> snd (coarseSweep data maxScale)"
    and "maxScale \<noteq> 0 \<Longrightarrow> minK (length data) maxScale \<le> k \<Longrightarrow> k \<le> maxK (length data) \<Longrightarrow>
           fst (coarseSweep data maxScale) ! k \<le> snd (coarseSweep data maxScale)"
    and "maxScale \<noteq> 0 \<Longrightarrow> minK (length data) maxScale \<le> maxK (length data) \<Longrightarrow>
           \<exists>k. minK (length data) maxScale \<le> k \<and> k \<le> maxK (length data) \<and>
               fst (coarseSweep data maxScale) ! k = snd (coarseSweep data maxScale)"
proof -
  define bins where "bins = sweepBins (length data) maxScale"
  define m0 where "m0 = replicate (maxK (length data) + 2) (0::real)"
  have cs: "coarseSweep data maxScale = sweep data bins (m0, 0)"
    by (simp add: coarseSweep_def Let_def bins_def m0_def)
  note mx = sweep_max[of 0 data bins m0]
  show g0: "0 \<le> snd (coarseSweep data maxScale)" using mx cs by simp
  {
    assume ms: "maxScale \<noteq> 0" and k: "minK (length data) maxScale \<le> k" "k \<le> maxK (length data)"
    have "k \<in> set bins" using ms k by (simp add: bins_def set_sweepBins)
    then have "magnitude (calculateDFTBin data (real k)) \<le> snd (coarseSweep data maxScale)"
      using mx cs by simp
    then show "fst (coarseSweep data maxScale) ! k \<le> snd (coarseSweep data maxScale)"
      using coarseSweep_nth[OF ms k] by simp
  }
  {
    assume ms: "maxScale \<noteq> 0" and ne: "minK (length data) maxScale \<le> maxK (length data)"
    have inb: "j \<in> set bins \<longleftrightarrow> minK (length data) maxScale \<le> j \<and> j \<le> maxK (length data)" for j
      using ms by (simp add: bins_def set_sweepBins)
    have nth: "j \<in> set bins \<Longrightarrow> fst (coarseSweep data maxScale) ! j = magnitude (calculateDFTBin data (real j))" for j
      using coarseSweep_nth[OF ms] inb by simp
    from mx cs consider "snd (coarseSweep data maxScale) = 0"
      | j where "j \<in> set bins" "snd (coarseSweep data maxScale) = magnitude (calculateDFTBin data (real j))"
      by auto
    then show "\<exists>k. minK (length data) maxScale \<le> k \<and> k \<le> maxK (length data) \<and>
               fst (coarseSweep data maxScale) ! k = snd (coarseSweep data maxScale)"
    proof cases
      case 1
      let ?k = "minK (length data) maxScale"
      have kin: "?k \<in> set bins" using inb ne by simp
      then have "magnitude (calculateDFTBin data (real ?k)) \<le> 0" using mx cs 1 by simp
      then have "magnitude (calculateDFTBin data (real ?k)) = 0"
        using magnitude_nonneg[of data "real ?k"] by linarith
      then show ?thesis using nth[OF kin] 1 ne by (intro exI[of _ ?k]) simp
    next
      case 2
      then show ?thesis using nth[OF 2(1)] inb by (intro exI[of _ j]) simp
    qed
  }
qed

lemma peakScan_eq:
  "peakScan data maxScale =
     findPeak (fst (coarseSweep data maxScale)) (snd (coarseSweep data maxScale) * 0.4)
       (scanBins (length data) maxScale)"
  by (simp add: peakScan_def split: prod.split)

lemma chooseK_eq:
  "chooseK data maxScale =
     (if fst (peakScan data maxScale) = - 1
      then (globalMaxBin (fst (coarseSweep data maxScale)) (snd (coarseSweep data maxScale))
              (sweepBins (length data) maxScale), snd (coarseSweep data maxScale))
      else peakScan data maxScale)"
  by (simp add: chooseK_def split: prod.split)

lemma peak_found_D:
  assumes "fst (peakScan data maxScale) \<noteq> - 1"
  shows "\<exists>k. minK (length data) maxScale < k \<and> k < maxK (length data) \<and> maxScale \<noteq> 0 \<and>
           accepts (fst (coarseSweep data maxScale)) (snd (coarseSweep data maxScale) * 0.4) k \<and>
           (\<forall>j. minK (length data) maxScale < j \<and> j < k \<longrightarrow>
              \<not> accepts (fst (coarseSweep data maxScale)) (snd (coarseSweep data maxScale) * 0.4) j) \<and>
           peakScan data maxScale =
             (parabolic (fst (coarseSweep data maxScale)) k, fst (coarseSweep data maxScale) ! k)"
proof -
  define m where "m = fst (coarseSweep data maxScale)"
  define th where "th = snd (coarseSweep data maxScale) * 0.4"
  define ks where "ks = scanBins (length data) maxScale"
  have ps: "peakScan data maxScale = findPeak m th ks"
    by (simp add: peakScan_eq m_def th_def ks_def)
  with assms have "\<exists>k\<in>set ks. accepts m th k" by (simp add: findPeak_found_iff)
  from findPeak_found[OF this] obtain k where
    k: "k \<in> set ks" "accepts m th k" "\<forall>j\<in>set ks. j < k \<longrightarrow> \<not> accepts m th j"
       "findPeak m th ks = (parabolic m k, m ! k)"
    using sorted_scanBins ks_def by blast
  have ms: "maxScale \<noteq> 0" using k(1) by (auto simp: ks_def set_scanBins split: if_splits)
  then have mem: "j \<in> set ks \<longleftrightarrow> minK (length data) maxScale < j \<and> j < maxK (length data)" for j
    by (simp add: ks_def set_scanBins)
  have "\<forall>j. minK (length data) maxScale < j \<and> j < k \<longrightarrow> \<not> accepts m th j"
    using k(1,3) mem by auto
  then show ?thesis using k mem ms ps unfolding m_def th_def by (intro exI[of _ k]) simp
qed

lemma peak_found_chooseK:
  "fst (peakScan data maxScale) \<noteq> - 1 \<Longrightarrow> chooseK data maxScale = peakScan data maxScale"
  by (simp add: chooseK_eq)

lemma no_peak_chooseK:
  assumes "maxScale \<noteq> 0" "minK (length data) maxScale \<le> maxK (length data)"
    and "fst (peakScan data maxScale) = - 1"
  shows "\<exists>k. minK (length data) maxScale \<le> k \<and> k \<le> maxK (length data) \<and>
           fst (coarseSweep data maxScale) ! k = snd (coarseSweep data maxScale) \<and>
           (\<forall>j. minK (length data) maxScale \<le> j \<and> j < k \<longrightarrow>
              fst (coarseSweep data maxScale) ! j \<noteq> snd (coarseSweep data maxScale)) \<and>
           chooseK data maxScale = (real k, snd (coarseSweep data maxScale))"
proof -
  define m where "m = fst (coarseSweep data maxScale)"
  define g where "g = snd (coarseSweep data maxScale)"
  define ks where "ks = sweepBins (length data) maxScale"
  have mem: "j \<in> set ks \<longleftrightarrow> minK (length data) maxScale \<le> j \<and> j \<le> maxK (length data)" for j
    using assms(1) by (simp add: ks_def set_sweepBins)
  from coarseSweep_max(3)[OF assms(1,2)] have "\<exists>k\<in>set ks. m ! k = g"
    using mem by (auto simp: m_def g_def)
  from globalMaxBin_found[OF this] obtain k where
    k: "k \<in> set ks" "m ! k = g" "\<forall>j\<in>set ks. j < k \<longrightarrow> m ! j \<noteq> g" "globalMaxBin m g ks = real k"
    using sorted_sweepBins ks_def by blast
  have "\<forall>j. minK (length data) maxScale \<le> j \<and> j < k \<longrightarrow> m ! j \<noteq> g"
    using k(1,3) mem by auto
  moreover have "chooseK data maxScale = (real k, g)"
    using assms(3) k(4) by (simp add: chooseK_eq m_def g_def ks_def)
  ultimately show ?thesis using k(1,2) mem unfolding m_def g_def by (intro exI[of _ k]) simp
qed

lemma band_nonempty_length:
  assumes "minK N maxScale \<le> maxK N"
  shows "2 \<le> N"
  using assms minK_ge_1[of N maxScale] by (simp add: maxK_def)

lemma peak_found_scale:
  assumes en: "0.0001 \<le> sum_list data" and found: "fst (peakScan data maxScale) \<noteq> - 1"
  shows "\<exists>k r. minK (length data) maxScale < k \<and> k < maxK (length data) \<and> maxScale \<noteq> 0 \<and>
           fst (peakScan data maxScale) = parabolic (fst (coarseSweep data maxScale)) k \<and>
           accepts (fst (coarseSweep data maxScale)) (snd (coarseSweep data maxScale) * 0.4) k \<and>
           0 < fst (peakScan data maxScale) \<and>
           analyzePeriodicity data maxScale = Some r \<and>
           scale r = real (length data) / fst (peakScan data maxScale) \<and> 0 < scale r"
proof -
  from peak_found_D[OF found] obtain k where
    k: "minK (length data) maxScale < k" "k < maxK (length data)" "maxScale \<noteq> 0"
       "accepts (fst (coarseSweep data maxScale)) (snd (coarseSweep data maxScale) * 0.4) k"
       "peakScan data maxScale =
             (parabolic (fst (coarseSweep data maxScale)) k, fst (coarseSweep data maxScale) ! k)"
    by blast
  have c: "fst (peakScan data maxScale) = parabolic (fst (coarseSweep data maxScale)) k"
    using k(5) by simp
  have "1 \<le> real k" using k(1) by simp
  then have pos: "0 < fst (peakScan data maxScale)"
    using parabolic_near(3)[OF k(4)] c by linarith
  have "0 < length data" using k(2) by (cases data) (simp_all add: maxK_def)
  then have N: "0 < real (length data)" by simp
  have fs: "finalScale data maxScale = real (length data) / fst (peakScan data maxScale)"
    by (simp add: finalScale_def peak_found_chooseK[OF found])
  then have fpos: "0 < finalScale data maxScale" using pos N by simp
  have ne: "\<not> sum_list data < 0.0001" using en by simp
  from analyze_returns[OF ne fpos] obtain r where r: "analyzePeriodicity data maxScale = Some r"
    by blast
  from analyze_Some_D[OF r ne] have "scale r = finalScale data maxScale" by simp
  then show ?thesis using k(1-4) c pos r fs fpos by (intro exI[of _ k] exI[of _ r]) simp
qed

lemma peak_first_D:
  assumes ms: "maxScale \<noteq> 0"
    and k: "minK (length data) maxScale < k" "k < maxK (length data)"
    and acc: "accepts (fst (coarseSweep data maxScale)) (snd (coarseSweep data maxScale) * 0.4) k"
    and first: "\<forall>j. minK (length data) maxScale < j \<and> j < k \<longrightarrow>
           \<not> accepts (fst (coarseSweep data maxScale)) (snd (coarseSweep data maxScale) * 0.4) j"
  shows "peakScan data maxScale
           = (parabolic (fst (coarseSweep data maxScale)) k, fst (coarseSweep data maxScale) ! k)"
    and "fst (peakScan data maxScale) \<noteq> - 1"
proof -
  define m where "m = fst (coarseSweep data maxScale)"
  define th where "th = snd (coarseSweep data maxScale) * 0.4"
  have "k \<in> set (scanBins (length data) maxScale)" using ms k by (simp add: set_scanBins)
  then have ex: "\<exists>k\<in>set (scanBins (length data) maxScale). accepts m th k"
    using acc unfolding m_def th_def by blast
  then show found: "fst (peakScan data maxScale) \<noteq> - 1"
    unfolding peakScan_eq m_def th_def by (simp only: findPeak_found_iff)
  from peak_found_D[OF found] obtain k' where
    k': "minK (length data) maxScale < k'" "k' < maxK (length data)"
        "accepts m th k'"
        "\<forall>j. minK (length data) maxScale < j \<and> j < k' \<longrightarrow> \<not> accepts m th j"
        "peakScan data maxScale = (parabolic m k', m ! k')"
    unfolding m_def th_def by blast
  have "\<not> k' < k" using first k'(1,3) unfolding m_def th_def by blast
  moreover have "\<not> k < k'" using k'(4) k(1) acc unfolding m_def th_def by blast
  ultimately have "k' = k" by linarith
  then show "peakScan data maxScale
           = (parabolic (fst (coarseSweep data maxScale)) k, fst (coarseSweep data maxScale) ! k)"
    using k'(5) by (simp add: m_def)
qed

section \<open>When the fitter returns\<close>

lemma empty_band_chooseK:
  assumes "maxScale = 0 \<or> maxK (length data) < minK (length data) maxScale"
  shows "fst (chooseK data maxScale) = - 1"
proof -
  have sw: "sweepBins (length data) maxScale = []" using assms by (auto simp: sweepBins_def)
  have sc: "scanBins (length data) maxScale = []" using assms by (auto simp: scanBins_def)
  have "peakScan data maxScale = (- 1, - 1)" by (simp add: peakScan_eq sc)
  then show ?thesis by (simp add: chooseK_eq sw)
qed

lemma fallback_returns:
  assumes en: "0.0001 \<le> sum_list data" and ms: "maxScale \<noteq> 0"
    and band: "minK (length data) maxScale \<le> maxK (length data)"
    and nopeak: "fst (peakScan data maxScale) = - 1"
  shows "\<exists>k r. minK (length data) maxScale \<le> k \<and> k \<le> maxK (length data) \<and>
           fst (coarseSweep data maxScale) ! k = snd (coarseSweep data maxScale) \<and>
           (\<forall>j. minK (length data) maxScale \<le> j \<and> j < k \<longrightarrow>
              fst (coarseSweep data maxScale) ! j \<noteq> snd (coarseSweep data maxScale)) \<and>
           chooseK data maxScale = (real k, snd (coarseSweep data maxScale)) \<and>
           analyzePeriodicity data maxScale = Some r \<and> scale r = real (length data) / real k"
proof -
  from no_peak_chooseK[OF ms band nopeak] obtain k where
    k: "minK (length data) maxScale \<le> k" "k \<le> maxK (length data)"
       "fst (coarseSweep data maxScale) ! k = snd (coarseSweep data maxScale)"
       "\<forall>j. minK (length data) maxScale \<le> j \<and> j < k \<longrightarrow>
              fst (coarseSweep data maxScale) ! j \<noteq> snd (coarseSweep data maxScale)"
       "chooseK data maxScale = (real k, snd (coarseSweep data maxScale))"
    by blast
  have kpos: "0 < real k" using k(1) minK_ge_1[of "length data" maxScale] by simp
  have "2 \<le> length data" using band by (rule band_nonempty_length)
  then have N: "0 < real (length data)" by (cases data) simp_all
  have fs: "finalScale data maxScale = real (length data) / real k"
    by (simp add: finalScale_def k(5))
  then have fpos: "0 < finalScale data maxScale" using kpos N by simp
  have ne: "\<not> sum_list data < 0.0001" using en by simp
  from analyze_returns[OF ne fpos] obtain r where r: "analyzePeriodicity data maxScale = Some r"
    by blast
  from analyze_Some_D[OF r ne] have "scale r = real (length data) / real k" using fs by simp
  then show ?thesis using k r by blast
qed

lemma analyzePeriodicity_returns_iff:
  "(\<exists>r. analyzePeriodicity data maxScale = Some r) \<longleftrightarrow>
     sum_list data < 0.0001 \<or>
     (maxScale \<noteq> 0 \<and> minK (length data) maxScale \<le> maxK (length data))"
proof (cases "sum_list data < 0.0001")
  case True
  then show ?thesis by (simp add: analyze_flat)
next
  case False
  then have en: "0.0001 \<le> sum_list data" by simp
  show ?thesis
  proof (cases "maxScale \<noteq> 0 \<and> minK (length data) maxScale \<le> maxK (length data)")
    case True
    have "\<exists>r. analyzePeriodicity data maxScale = Some r"
    proof (cases "fst (peakScan data maxScale) = - 1")
      case True
      from fallback_returns[OF en _ _ True] \<open>maxScale \<noteq> 0 \<and> _\<close> show ?thesis by blast
    next
      case False
      from peak_found_scale[OF en False] show ?thesis by blast
    qed
    then show ?thesis using True by simp
  next
    case nb: False
    then have "fst (chooseK data maxScale) = - 1" by (intro empty_band_chooseK) auto
    then have "finalScale data maxScale \<le> 0" by (simp add: finalScale_def)
    from analyze_diverges[OF False this] show ?thesis using nb False by simp
  qed
qed

section \<open>The fitter on small signals\<close>

lemma cos_2pi3: "cos (2 * pi / 3) = - (1 / 2)"
proof -
  have "cos (pi - pi / 3) = - cos (pi / 3)" by (rule cos_pi_minus)
  moreover have "pi - pi / 3 = 2 * pi / 3" by simp
  ultimately show ?thesis by (simp add: cos_60)
qed

lemma sin_2pi3: "sin (2 * pi / 3) = sqrt 3 / 2"
proof -
  have "sin (pi - pi / 3) = sin (pi / 3)" by (rule sin_pi_minus)
  moreover have "pi - pi / 3 = 2 * pi / 3" by simp
  ultimately show ?thesis by (simp add: sin_60)
qed

lemma cos_4pi3: "cos (pi * 4 / 3) = - (1 / 2)"
proof -
  have "cos (pi / 3 + pi) = - cos (pi / 3)" by (rule cos_periodic_pi)
  moreover have "pi / 3 + pi = pi * 4 / 3" by simp
  ultimately show ?thesis by (simp add: cos_60)
qed

lemma sin_4pi3: "sin (pi * 4 / 3) = - (sqrt 3 / 2)"
proof -
  have "sin (pi / 3 + pi) = - sin (pi / 3)" by (rule sin_periodic_pi)
  moreover have "pi / 3 + pi = pi * 4 / 3" by simp
  ultimately show ?thesis by (simp add: sin_60)
qed

lemma cos_8pi3: "cos (8 * pi / 3) = - (1 / 2)"
proof -
  have "cos (2 * pi / 3 + 2 * pi) = cos (2 * pi / 3)" by (rule cos_periodic)
  moreover have "2 * pi / 3 + 2 * pi = 8 * pi / 3" by simp
  ultimately show ?thesis by (simp add: cos_2pi3)
qed

lemma sin_8pi3: "sin (8 * pi / 3) = sqrt 3 / 2"
proof -
  have "sin (2 * pi / 3 + 2 * pi) = sin (2 * pi / 3)" by (rule sin_periodic)
  moreover have "2 * pi / 3 + 2 * pi = 8 * pi / 3" by simp
  ultimately show ?thesis by (simp add: sin_2pi3)
qed

lemma cos_3pi4: "cos (3 * pi / 4) = - (sqrt 2 / 2)"
proof -
  have "cos (pi - pi / 4) = - cos (pi / 4)" by (rule cos_pi_minus)
  moreover have "pi - pi / 4 = 3 * pi / 4" by simp
  ultimately show ?thesis by (simp add: cos_45)
qed

lemma sin_3pi4: "sin (3 * pi / 4) = sqrt 2 / 2"
proof -
  have "sin (pi - pi / 4) = sin (pi / 4)" by (rule sin_pi_minus)
  moreover have "pi - pi / 4 = 3 * pi / 4" by simp
  ultimately show ?thesis by (simp add: sin_45)
qed

lemma cos_3pi2: "cos (3 * pi / 2) = 0"
proof -
  have "cos (pi / 2 + pi) = - cos (pi / 2)" by (rule cos_periodic_pi)
  moreover have "pi / 2 + pi = 3 * pi / 2" by simp
  ultimately show ?thesis by simp
qed

lemma sin_3pi2: "sin (3 * pi / 2) = - 1"
proof -
  have "sin (pi / 2 + pi) = - sin (pi / 2)" by (rule sin_periodic_pi)
  moreover have "pi / 2 + pi = 3 * pi / 2" by simp
  ultimately show ?thesis by simp
qed

lemma arctan_sqrt3: "arctan (sqrt 3) = pi / 3"
proof -
  have "arctan (tan (pi / 3)) = pi / 3" by (rule arctan_tan) (simp_all add: field_simps)
  then show ?thesis by (simp add: tan_60)
qed

lemma cos_4pi3': "cos (4 * pi / 3) = - (1 / 2)"
  using cos_4pi3 by (simp add: mult.commute)

lemma sin_4pi3': "sin (4 * pi / 3) = - (sqrt 3 / 2)"
  using sin_4pi3 by (simp add: mult.commute)

lemma comb6_bin1: "magnitude (calculateDFTBin [0, 1, 0, 0, 1, 0] 1) = 0"
  by (simp add: calculateDFTBin_def Let_def cos_60 sin_60 cos_4pi3' sin_4pi3')

lemma comb6_bin2:
  "calculateDFTBin [0, 1, 0, 0, 1, 0] 2 = \<lparr> magnitude = 2, phase = - (2 * pi / 3) \<rparr>"
  by (simp add: calculateDFTBin_def Let_def cos_2pi3 sin_2pi3 cos_8pi3 sin_8pi3 atan2_def
      arctan_sqrt3)

lemma comb6_bin3: "magnitude (calculateDFTBin [0, 1, 0, 0, 1, 0] 3) = 0"
  by (simp add: calculateDFTBin_def Let_def)

lemma comb6_sweep: "coarseSweep [0, 1, 0, 0, 1, 0] 16 = ([0, 0, 2, 0, 0], 2)"
  by (simp add: coarseSweep_def sweepBins_def minK_def maxK_def upt_conv_Cons Let_def
      comb6_bin1 comb6_bin2 comb6_bin3 numeral_3_eq_3)

lemma comb6_scan: "peakScan [0, 1, 0, 0, 1, 0] 16 = (2, 2)"
  by (simp add: peakScan_def comb6_sweep scanBins_def minK_def maxK_def upt_conv_Cons
      findPeak_accepts_iff accepts_def parabolic_def Let_def)

lemma comb6_chooseK: "chooseK [0, 1, 0, 0, 1, 0] 16 = (2, 2)"
  by (simp add: chooseK_def comb6_sweep comb6_scan)

lemma comb6_finalScale: "finalScale [0, 1, 0, 0, 1, 0] 16 = 3"
  by (simp add: finalScale_def comb6_chooseK)

lemma comb6_rawOffset: "rawOffset [0, 1, 0, 0, 1, 0] 16 = 1"
  by (simp add: rawOffset_def comb6_chooseK comb6_finalScale comb6_bin2 Let_def)

lemma comb6_result:
  "analyzePeriodicity [0, 1, 0, 0, 1, 0] 16 = Some \<lparr> scale = 3, offset = 1, confidence = 3 \<rparr>"
proof -
  have up: "normalizeUp 1 3 = Some 1" by (subst normalizeUp.simps) simp
  have down: "normalizeDown 1 3 = Some 1" by (subst normalizeDown.simps) simp
  show ?thesis
    by (simp add: analyzePeriodicity_def Let_def comb6_chooseK comb6_finalScale comb6_rawOffset
        comb6_bin2 up down)
qed

lemma edge2_bin1: "calculateDFTBin [0, 1] 1 = \<lparr> magnitude = 1, phase = pi \<rparr>"
  by (simp add: calculateDFTBin_def Let_def atan2_def)

lemma edge2_sweep: "coarseSweep [0, 1] 2 = ([0, 1, 0], 1)"
  by (simp add: coarseSweep_def sweepBins_def minK_def maxK_def upt_conv_Cons Let_def edge2_bin1)

lemma edge2_scan: "peakScan [0, 1] 2 = (- 1, - 1)"
  by (simp add: peakScan_def edge2_sweep scanBins_def minK_def maxK_def)

lemma edge2_chooseK: "chooseK [0, 1] 2 = (1, 1)"
  by (simp add: chooseK_def edge2_sweep edge2_scan sweepBins_def minK_def maxK_def upt_conv_Cons)

lemma edge2_finalScale: "finalScale [0, 1] 2 = 2"
  by (simp add: finalScale_def edge2_chooseK)

lemma edge2_rawOffset: "rawOffset [0, 1] 2 = - 1"
  by (simp add: rawOffset_def edge2_chooseK edge2_finalScale edge2_bin1 Let_def)

lemma edge2_result:
  "analyzePeriodicity [0, 1] 2 = Some \<lparr> scale = 2, offset = 1, confidence = 2 \<rparr>"
proof -
  have up1: "normalizeUp 1 2 = Some 1" by (subst normalizeUp.simps) simp
  have up: "normalizeUp (- 1) 2 = Some 1" by (subst normalizeUp.simps) (simp add: up1)
  have down: "normalizeDown 1 2 = Some 1" by (subst normalizeDown.simps) simp
  show ?thesis
    by (simp add: analyzePeriodicity_def Let_def edge2_chooseK edge2_finalScale edge2_rawOffset
        edge2_bin1 up down)
qed

lemma edge2_one_chooseK: "chooseK [0, 1] 1 = (- 1, 0)"
  by (simp add: chooseK_def peakScan_def coarseSweep_def sweepBins_def scanBins_def minK_def
      maxK_def Let_def)

lemma edge2_one_finalScale: "finalScale [0, 1] 1 = - 2"
  by (simp add: finalScale_def edge2_one_chooseK)

lemma edge2_one_diverges: "analyzePeriodicity [0, 1] 1 = None"
  using analyze_diverges[of "[0, 1]" 1] by (simp add: edge2_one_finalScale)

lemma sqrt11_bounds: "3 < sqrt 11" "sqrt 11 < 7 / 2"
proof -
  show "3 < sqrt 11" by (rule real_less_rsqrt) (simp add: power2_eq_square)
  show "sqrt 11 < 7 / 2" by (rule real_less_lsqrt) (simp_all add: power2_eq_square)
qed

lemma skew8_bin2: "magnitude (calculateDFTBin [0, 3, 1, 0, 1, 0, 0, 0] 2) = 3"
  by (simp add: calculateDFTBin_def Let_def)

lemma skew8_bin3: "magnitude (calculateDFTBin [0, 3, 1, 0, 1, 0, 0, 0] 3) = sqrt 11"
proof -
  have "(3 * sqrt 2 / 2 + 1) * (3 * sqrt 2 / 2 + 1) + (3 * sqrt 2 / 2 - 1) * (3 * sqrt 2 / 2 - 1)
        = 2 * ((3 * sqrt 2 / 2) * (3 * sqrt 2 / 2)) + 2"
    by (simp add: algebra_simps)
  also have "(3 * sqrt 2 / 2) * (3 * sqrt 2 / 2) = 9 / 2" by simp
  finally have e: "(3 * sqrt 2 / 2 + 1) * (3 * sqrt 2 / 2 + 1)
      + (3 * sqrt 2 / 2 - 1) * (3 * sqrt 2 / 2 - 1) = 11" by simp
  have "magnitude (calculateDFTBin [0, 3, 1, 0, 1, 0, 0, 0] 3)
        = sqrt ((- (3 * sqrt 2 / 2) - 1) * (- (3 * sqrt 2 / 2) - 1)
              + (- (3 * sqrt 2 / 2) + 1) * (- (3 * sqrt 2 / 2) + 1))"
    by (simp add: calculateDFTBin_def Let_def cos_3pi4 sin_3pi4 cos_3pi2 sin_3pi2)
  also have "(- (3 * sqrt 2 / 2) - 1) * (- (3 * sqrt 2 / 2) - 1)
              + (- (3 * sqrt 2 / 2) + 1) * (- (3 * sqrt 2 / 2) + 1)
        = (3 * sqrt 2 / 2 + 1) * (3 * sqrt 2 / 2 + 1) + (3 * sqrt 2 / 2 - 1) * (3 * sqrt 2 / 2 - 1)"
    by (simp add: algebra_simps)
  finally show ?thesis using e by simp
qed

lemma skew8_bin4: "magnitude (calculateDFTBin [0, 3, 1, 0, 1, 0, 0, 0] 4) = 1"
  by (simp add: calculateDFTBin_def Let_def)

lemma skew8_sweep: "coarseSweep [0, 3, 1, 0, 1, 0, 0, 0] 3 = ([0, 0, 3, sqrt 11, 1, 0], sqrt 11)"
  using sqrt11_bounds
  by (simp add: coarseSweep_def sweepBins_def minK_def maxK_def upt_conv_Cons Let_def
      skew8_bin2 skew8_bin3 skew8_bin4 numeral_3_eq_3)

lemma skew8_scan:
  "peakScan [0, 3, 1, 0, 1, 0, 0, 0] 3 = (3 + 2 / (8 - 4 * sqrt 11), sqrt 11)"
  using sqrt11_bounds
  by (simp add: peakScan_def skew8_sweep scanBins_def minK_def maxK_def upt_conv_Cons
      findPeak_accepts_iff accepts_def parabolic_def Let_def numeral_3_eq_3)

lemma spike6_bin1: "magnitude (calculateDFTBin [0, 1, 0, 0, 0, 0] 1) = 1"
proof -
  have "(sqrt 3 / 2) * (sqrt 3 / 2) = 3 / 4" by simp
  then show ?thesis by (simp add: calculateDFTBin_def Let_def cos_60 sin_60)
qed

lemma spike6_bin2: "magnitude (calculateDFTBin [0, 1, 0, 0, 0, 0] 2) = 1"
proof -
  have "(sqrt 3 / 2) * (sqrt 3 / 2) = 3 / 4" by simp
  then show ?thesis by (simp add: calculateDFTBin_def Let_def cos_2pi3 sin_2pi3)
qed

lemma spike6_bin3: "magnitude (calculateDFTBin [0, 1, 0, 0, 0, 0] 3) = 1"
  by (simp add: calculateDFTBin_def Let_def)

lemma spike6_sweep: "coarseSweep [0, 1, 0, 0, 0, 0] 16 = ([0, 1, 1, 1, 0], 1)"
  by (simp add: coarseSweep_def sweepBins_def minK_def maxK_def upt_conv_Cons Let_def
      spike6_bin1 spike6_bin2 spike6_bin3 numeral_3_eq_3)

text \<open>The signal \<open>[0, 3, 1, 0, 1, 0, 0, 0]\<close> with the band \<open>[1, 4]\<close>: bin 2 is no local
  maximum, bin 3 is the first peak.\<close>

lemma skew8_bin1: "magnitude (calculateDFTBin [0, 3, 1, 0, 1, 0, 0, 0] 1) = sqrt 11"
proof -
  have "(3 * sqrt 2 / 2 + 1) * (3 * sqrt 2 / 2 + 1) + (3 * sqrt 2 / 2 - 1) * (3 * sqrt 2 / 2 - 1)
        = 2 * ((3 * sqrt 2 / 2) * (3 * sqrt 2 / 2)) + 2"
    by (simp add: algebra_simps)
  also have "(3 * sqrt 2 / 2) * (3 * sqrt 2 / 2) = 9 / 2" by simp
  finally have e: "(3 * sqrt 2 / 2 + 1) * (3 * sqrt 2 / 2 + 1)
      + (3 * sqrt 2 / 2 - 1) * (3 * sqrt 2 / 2 - 1) = 11" by simp
  have "magnitude (calculateDFTBin [0, 3, 1, 0, 1, 0, 0, 0] 1)
        = sqrt ((3 * sqrt 2 / 2 - 1) * (3 * sqrt 2 / 2 - 1)
              + (- (3 * sqrt 2 / 2) - 1) * (- (3 * sqrt 2 / 2) - 1))"
    by (simp add: calculateDFTBin_def Let_def cos_45 sin_45)
  also have "(3 * sqrt 2 / 2 - 1) * (3 * sqrt 2 / 2 - 1)
              + (- (3 * sqrt 2 / 2) - 1) * (- (3 * sqrt 2 / 2) - 1)
        = (3 * sqrt 2 / 2 + 1) * (3 * sqrt 2 / 2 + 1) + (3 * sqrt 2 / 2 - 1) * (3 * sqrt 2 / 2 - 1)"
    by (simp add: algebra_simps)
  finally show ?thesis using e by simp
qed

lemma skew8_wide_sweep:
  "coarseSweep [0, 3, 1, 0, 1, 0, 0, 0] 16 = ([0, sqrt 11, 3, sqrt 11, 1, 0], sqrt 11)"
  using sqrt11_bounds
  by (simp add: coarseSweep_def sweepBins_def minK_def maxK_def upt_conv_Cons Let_def
      skew8_bin1 skew8_bin2 skew8_bin3 skew8_bin4 numeral_3_eq_3)

lemma skew8_wide_scan:
  "peakScan [0, 3, 1, 0, 1, 0, 0, 0] 16 = (3 + 2 / (8 - 4 * sqrt 11), sqrt 11)"
  using sqrt11_bounds
  by (simp add: peakScan_def skew8_wide_sweep scanBins_def minK_def maxK_def upt_conv_Cons
      findPeak_accepts_iff accepts_def parabolic_def Let_def numeral_3_eq_3)

text \<open>Two pulses six samples apart: the bins 2 and 4 both pass the test of the scan.\<close>

lemma pair12_bins:
  "magnitude (calculateDFTBin [1, 0, 0, 0, 0, 0, 1, 0, 0, 0, 0, 0] 1) = 0"
  "magnitude (calculateDFTBin [1, 0, 0, 0, 0, 0, 1, 0, 0, 0, 0, 0] 2) = 2"
  "magnitude (calculateDFTBin [1, 0, 0, 0, 0, 0, 1, 0, 0, 0, 0, 0] 3) = 0"
  "magnitude (calculateDFTBin [1, 0, 0, 0, 0, 0, 1, 0, 0, 0, 0, 0] 4) = 2"
  "magnitude (calculateDFTBin [1, 0, 0, 0, 0, 0, 1, 0, 0, 0, 0, 0] 5) = 0"
  "magnitude (calculateDFTBin [1, 0, 0, 0, 0, 0, 1, 0, 0, 0, 0, 0] 6) = 2"
  by (simp_all add: calculateDFTBin_def Let_def)

lemma pair12_sweep:
  "coarseSweep [1, 0, 0, 0, 0, 0, 1, 0, 0, 0, 0, 0] 16 = ([0, 0, 2, 0, 2, 0, 2, 0], 2)"
  by (simp add: coarseSweep_def sweepBins_def minK_def maxK_def upt_conv_Cons Let_def
      pair12_bins numeral_3_eq_3)

lemma pair12_scan: "peakScan [1, 0, 0, 0, 0, 0, 1, 0, 0, 0, 0, 0] 16 = (2, 2)"
  by (simp add: peakScan_def pair12_sweep scanBins_def minK_def maxK_def upt_conv_Cons
      findPeak_accepts_iff accepts_def parabolic_def Let_def)

section \<open>The edge signals of a constant image\<close>

lemma absDiffRGB_same: "absDiffRGB c c = 0"
  by (simp add: absDiffRGB_def)

lemma sum_list_zero: "(\<forall>v\<in>set xs. v = (0::real)) \<Longrightarrow> sum_list xs = 0"
  by (induction xs) simp_all

lemma flat_fsColDiff:
  assumes "\<forall>x y. 0 \<le> x \<and> x < int (imgWidth img) \<and> 0 \<le> y \<and> y < int (imgHeight img)
             \<longrightarrow> texelFetch img x y = c"
    and "x < imgWidth img"
  shows "chR (fsColDiff img (int x)) = 0"
proof -
  define prevX where "prevX = (if int x > 0 then int x - 1 else 0)"
  have px: "0 \<le> prevX" "prevX < int (imgWidth img)" using assms(2) by (auto simp: prevX_def)
  have "absDiffRGB (texelFetch img (int x) (int y)) (texelFetch img prevX (int y)) = 0"
    if "y < imgHeight img" for y
    using assms(1,2) px that by (simp add: absDiffRGB_same)
  then have "(\<Sum>y\<leftarrow>[0 ..< imgHeight img].
                absDiffRGB (texelFetch img (int x) (int y)) (texelFetch img prevX (int y))) = 0"
    by (intro sum_list_zero) auto
  then show ?thesis using assms(2) by (simp add: fsColDiff_def Let_def prevX_def)
qed

lemma flat_fsRowDiff:
  assumes "\<forall>x y. 0 \<le> x \<and> x < int (imgWidth img) \<and> 0 \<le> y \<and> y < int (imgHeight img)
             \<longrightarrow> texelFetch img x y = c"
    and "y < imgHeight img"
  shows "chR (fsRowDiff img (int y)) = 0"
proof -
  define prevY where "prevY = (if int y > 0 then int y - 1 else 0)"
  have py: "0 \<le> prevY" "prevY < int (imgHeight img)" using assms(2) by (auto simp: prevY_def)
  have "absDiffRGB (texelFetch img (int x) (int y)) (texelFetch img (int x) prevY) = 0"
    if "x < imgWidth img" for x
    using assms(1,2) py that by (simp add: absDiffRGB_same)
  then have "(\<Sum>x\<leftarrow>[0 ..< imgWidth img].
                absDiffRGB (texelFetch img (int x) (int y)) (texelFetch img (int x) prevY)) = 0"
    by (intro sum_list_zero) auto
  then show ?thesis using assms(2) by (simp add: fsRowDiff_def Let_def prevY_def)
qed

lemma map_zero_replicate: "(\<forall>i\<in>set is. f i = (0::real)) \<Longrightarrow> map f is = replicate (length is) 0"
  by (induction "is") simp_all

section \<open>The nearest-pixel lookups\<close>

lemma glslInt_nonneg: "0 \<le> x \<Longrightarrow> glslInt x = \<lfloor>x\<rfloor>"
  by (simp add: glslInt_def)

lemma roundToInt_near: "\<bar>real_of_int (roundToInt f) - f\<bar> \<le> 1 / 2"
proof -
  have "real_of_int \<lfloor>f\<rfloor> \<le> f" "f < real_of_int \<lfloor>f\<rfloor> + 1" by linarith+
  then show ?thesis by (auto simp: roundToInt_def Let_def abs_le_iff)
qed

lemma ramp_center: "centerX \<lparr> uScaleX = 7 / 2, uOffsetX = 0, uScaleY = 7 / 2, uOffsetY = 0, uGridOffsetX = 0, uGridOffsetY = 0, uSampleCenterOnly = True \<rparr> 0 = 7 / 4" "centerY \<lparr> uScaleX = 7 / 2, uOffsetX = 0, uScaleY = 7 / 2, uOffsetY = 0, uGridOffsetX = 0, uGridOffsetY = 0, uSampleCenterOnly = True \<rparr> 0 = 7 / 4"
  by (simp_all add: centerX_def centerY_def Let_def)

lemma ramp_center_only:
  "fsDownsample \<lparr> imgWidth = 7, imgHeight = 7, texelFetch = \<lambda>x y. Vec4 (real_of_int x) (real_of_int y) 0 1 \<rparr>
     \<lparr> uScaleX = 7 / 2, uOffsetX = 0, uScaleY = 7 / 2, uOffsetY = 0, uGridOffsetX = 0, uGridOffsetY = 0, uSampleCenterOnly = True \<rparr> 0 0 = Vec4 1 1 0 1"
  by (simp add: fsDownsample_def centerTexel_def ramp_center glslInt_def clamp_def Let_def)

lemma ramp_box_center: "centerX \<lparr> uScaleX = 3 / 2, uOffsetX = 3 / 4, uScaleY = 3 / 2, uOffsetY = 3 / 4, uGridOffsetX = 0, uGridOffsetY = 0, uSampleCenterOnly = False \<rparr> 0 = 3 / 2" "centerY \<lparr> uScaleX = 3 / 2, uOffsetX = 3 / 4, uScaleY = 3 / 2, uOffsetY = 3 / 4, uGridOffsetX = 0, uGridOffsetY = 0, uSampleCenterOnly = False \<rparr> 0 = 3 / 2"
  by (simp_all add: centerX_def centerY_def Let_def)

lemma ramp_box_empty:
  "boxTexels \<lparr> imgWidth = 7, imgHeight = 7, texelFetch = \<lambda>x y. Vec4 (real_of_int x) (real_of_int y) 0 1 \<rparr>
     \<lparr> uScaleX = 3 / 2, uOffsetX = 3 / 4, uScaleY = 3 / 2, uOffsetY = 3 / 4, uGridOffsetX = 0, uGridOffsetY = 0, uSampleCenterOnly = False \<rparr> 0 0 = []"
  by (simp add: boxTexels_def ramp_box_center Let_def)

lemma ramp_box_fallback:
  "fsDownsample \<lparr> imgWidth = 7, imgHeight = 7, texelFetch = \<lambda>x y. Vec4 (real_of_int x) (real_of_int y) 0 1 \<rparr>
     \<lparr> uScaleX = 3 / 2, uOffsetX = 3 / 4, uScaleY = 3 / 2, uOffsetY = 3 / 4, uGridOffsetX = 0, uGridOffsetY = 0, uSampleCenterOnly = False \<rparr> 0 0 = Vec4 1 1 0 1"
  by (simp add: fsDownsample_def ramp_box_empty centerTexel_def ramp_box_center glslInt_def
      clamp_def Let_def)

lemma cs_box_empty:
  "boxPixels 3 3 srcPixels (3 / 5) (3 / 5) (3 / 10) (3 / 10) = []"
  by (simp add: boxPixels_def Let_def)

section \<open>Grid indices\<close>

lemma floor_div_mono:
  fixes a b s :: real
  assumes "0 < s" "a \<le> b"
  shows "\<lfloor>a / s\<rfloor> \<le> \<lfloor>b / s\<rfloor>"
  using assms by (intro floor_mono divide_right_mono) simp_all

lemma gridIndex_mono:
  assumes "0 < sx" "x \<le> x'"
  shows "gridIndex x ox sx \<le> gridIndex x' ox sx"
  unfolding gridIndex_def using assms by (intro floor_div_mono) simp_all

lemma gridIndex_bounds:
  assumes "0 < sx" "0 \<le> px" "px < int n"
  shows "minGrid ox sx \<le> gridIndex px ox sx \<and> gridIndex px ox sx \<le> maxGrid n ox sx"
proof -
  have "px + 1 \<le> int n" using assms(3) by simp
  then have "real_of_int (px + 1) \<le> real_of_int (int n)" by (simp only: of_int_le_iff)
  then have "real_of_int px \<le> real n - 1" by simp
  then have "\<lfloor>(real_of_int px - ox) / sx\<rfloor> \<le> \<lfloor>(real n - 1 - ox) / sx\<rfloor>"
    using assms(1) by (intro floor_div_mono) simp_all
  moreover have "\<lfloor>(0 - ox) / sx\<rfloor> \<le> \<lfloor>(real_of_int px - ox) / sx\<rfloor>"
    using assms(1,2) by (intro floor_div_mono) simp_all
  ultimately show ?thesis by (simp add: minGrid_def maxGrid_def gridIndex_def)
qed

section \<open>The preview pass of ReconstructImage\<close>

subsection \<open>Rounding to binary32\<close>

lemma pow2_pos: "0 < pow2 e"
  by (simp add: pow2_def)




lemma fl32_0: "fl32 0 = 0"
  by (simp add: fl32_def)






lemma skip_indexY: "floatGridIndex 0 0 1 = 0"
  by (simp add: floatGridIndex_def fl32_0)

subsection \<open>The range and the cache after the pass\<close>

lemma safetyClamp_ge_1: "1 \<le> safetyClamp s"
  by (simp add: safetyClamp_def)


text \<open>Without rounding, the indices of two neighbouring pixels differ by at most 1
  when the scale is at least 1.\<close>

lemma gridIndex_step:
  assumes "1 \<le> sx"
  shows "gridIndex (x + 1) ox sx \<le> gridIndex x ox sx + 1"
proof -
  have "(real_of_int (x + 1) - ox) / sx = (real_of_int x - ox) / sx + 1 / sx"
    by (simp add: add_divide_distrib diff_divide_distrib)
  moreover have "1 / sx \<le> 1" using assms by simp
  ultimately have "(real_of_int (x + 1) - ox) / sx \<le> (real_of_int x - ox) / sx + 1" by linarith
  then have "\<lfloor>(real_of_int (x + 1) - ox) / sx\<rfloor> \<le> \<lfloor>(real_of_int x - ox) / sx + 1\<rfloor>"
    by (rule floor_mono)
  then show ?thesis by (simp add: gridIndex_def)
qed























subsection \<open>Two runs of the pass\<close>
























section \<open>The claims of the specification\<close>

text \<open>
  Claim C1, as amended. With total energy of at least \<open>10^-4\<close>, \<open>maxScale \<ge> 2\<close>
  and a bin accepted by the peak scan, the fitter returns, and its scale
  \<open>N / k_refined\<close> lies strictly between 2 and \<open>N / (minK + 1/2)\<close>, which is below
  \<open>4/3 * maxScale\<close>. The bound \<open>scale \<le> maxScale\<close> itself does not hold.
\<close>

theorem refined_scale_range:
  assumes "0.0001 \<le> sum_list data" and "2 \<le> maxScale" and "fst (peakScan data maxScale) \<noteq> - 1"
  shows "\<exists>r. analyzePeriodicity data maxScale = Some r \<and> 2 < scale r \<and>
           scale r < real (length data) / (real (minK (length data) maxScale) + 1 / 2) \<and>
           scale r < 4 / 3 * maxScale"
proof -
  define N where "N = length data"
  define c where "c = fst (peakScan data maxScale)"
  define mk where "mk = minK N maxScale"
  from peak_found_scale[OF assms(1,3)] obtain k r where
    k: "mk < k" "k < maxK N" "c = parabolic (fst (coarseSweep data maxScale)) k"
       "accepts (fst (coarseSweep data maxScale)) (snd (coarseSweep data maxScale) * 0.4) k"
       "0 < c" and
    r: "analyzePeriodicity data maxScale = Some r" "scale r = real N / c"
    unfolding N_def c_def mk_def by blast
  have lo: "real k - 1 / 2 < c" and hi: "c < real k + 1 / 2"
    using parabolic_near(3,4)[OF k(4)] k(3) by simp_all
  have "k + 1 \<le> N div 2" using k(2) by (simp add: maxK_def)
  then have "2 * (k + 1) \<le> N" by presburger
  then have "2 * (real k + 1) \<le> real N"
    using of_nat_mono[of "2 * (k + 1)" N, where 'a = real] by simp
  then have "2 * c < real N" using hi by argo
  then have two: "2 < real N / c" using k(5) by (simp add: pos_less_divide_eq)
  have "real mk + 1 \<le> real k" using k(1) by linarith
  then have c_lo: "real mk + 1 / 2 < c" using lo by linarith
  have "0 \<le> real k" by simp
  then have Npos: "0 < real N" using \<open>2 * (real k + 1) \<le> real N\<close> by argo
  have up: "real N / c < real N / (real mk + 1 / 2)"
  proof (rule divide_strict_left_mono)
    show "real mk + 1 / 2 < c" by (rule c_lo)
    show "0 < real N" by (rule Npos)
    show "0 < c * (real mk + 1 / 2)" using k(5) by (intro mult_pos_pos) simp_all
  qed
  have mspos: "0 < maxScale" using assms(2) by simp
  have "real N < (real mk + 1) * maxScale" unfolding mk_def by (rule minK_gt_quotient[OF mspos])
  moreover have mk1: "1 \<le> real mk" using minK_ge_1[of N maxScale] by (simp add: mk_def)
  have nn: "0 \<le> maxScale * ((real mk - 1) / 3)"
    using mspos mk1 by (intro mult_nonneg_nonneg) simp_all
  have eq: "maxScale * ((real mk - 1) / 3)
      = 4 / 3 * maxScale * (real mk + 1 / 2) - (real mk + 1) * maxScale"
    by (simp add: field_simps)
  have "(real mk + 1) * maxScale \<le> 4 / 3 * maxScale * (real mk + 1 / 2)"
    using nn unfolding eq by argo
  ultimately have "real N < 4 / 3 * maxScale * (real mk + 1 / 2)" by linarith
  moreover have "0 < real mk + 1 / 2" using mk1 by linarith
  ultimately have lim: "real N / (real mk + 1 / 2) < 4 / 3 * maxScale"
    by (simp only: pos_divide_less_eq)
  have s1: "2 < scale r" using two r(2) by simp
  have s2: "scale r < real N / (real mk + 1 / 2)" using up r(2) by simp
  have s3: "scale r < 4 / 3 * maxScale" using s2 lim by (rule less_trans)
  show ?thesis using r(1) s1 s2 s3 unfolding N_def mk_def by blast
qed

theorem refined_scale_range_witness:
  "(0.0001::real) \<le> sum_list [0, 1, 0, 0, 1, 0] \<and> (2::real) \<le> 16 \<and>
   fst (peakScan [0, 1, 0, 0, 1, 0] 16) \<noteq> - 1 \<and>
   analyzePeriodicity [0, 1, 0, 0, 1, 0] 16 = Some \<lparr> scale = 3, offset = 1, confidence = 3 \<rparr> \<and>
   (\<exists>r. analyzePeriodicity [0, 1, 0, 0, 1, 0] 16 = Some r \<and> 2 < scale r \<and>
      scale r < real (length [0, 1, 0, 0, 1, 0 :: real]) / (real (minK (length [0, 1, 0, 0, 1, 0 :: real]) 16) + 1 / 2) \<and>
      scale r < 4 / 3 * 16)"
proof -
  have h: "(0.0001::real) \<le> sum_list [0, 1, 0, 0, 1, 0]" "(2::real) \<le> 16"
    "fst (peakScan [0, 1, 0, 0, 1, 0] 16) \<noteq> - 1"
    by (simp_all add: comb6_scan)
  from refined_scale_range[OF h] h comb6_result show ?thesis by blast
qed

text \<open>
  The signal \<open>[0, 3, 1, 0, 1, 0, 0, 0]\<close> with \<open>maxScale = 3\<close>: the magnitudes at the bins
  2, 3, 4 are \<open>3\<close>, \<open>sqrt 11\<close>, \<open>1\<close>, the scan accepts bin 3, the interpolation
  moves it to about 2.62, and the scale returned is about 3.05.
\<close>

theorem scale_exceeds_maxScale:
  "(0.0001::real) \<le> sum_list [0, 3, 1, 0, 1, 0, 0, 0] \<and> (2::real) \<le> 3 \<and>
   fst (peakScan [0, 3, 1, 0, 1, 0, 0, 0] 3) \<noteq> - 1 \<and>
   (\<exists>r. analyzePeriodicity [0, 3, 1, 0, 1, 0, 0, 0] 3 = Some r \<and> 3 < scale r)"
proof -
  have c: "fst (peakScan [0, 3, 1, 0, 1, 0, 0, 0] 3) = 3 + 2 / (8 - 4 * sqrt 11)"
    by (simp add: skew8_scan)
  have neg: "8 - 4 * sqrt 11 < 0" using sqrt11_bounds(1) by simp
  have "- 6 < 8 - 4 * sqrt 11" using sqrt11_bounds(2) by simp
  then have "2 / (8 - 4 * sqrt 11) < - (1 / 3)" using neg by (simp add: field_simps)
  then have chi: "3 + 2 / (8 - 4 * sqrt 11) < 8 / 3" by simp
  have "- 4 > 8 - 4 * sqrt 11" using sqrt11_bounds(1) by simp
  then have "- (1 / 2) < 2 / (8 - 4 * sqrt 11)" using neg by (simp add: field_simps)
  then have clo: "0 < 3 + 2 / (8 - 4 * sqrt 11)" by simp
  have found: "fst (peakScan [0, 3, 1, 0, 1, 0, 0, 0] 3) \<noteq> - 1" using c clo by simp
  have en: "(0.0001::real) \<le> sum_list [0, 3, 1, 0, 1, 0, 0, 0]" by simp
  from peak_found_scale[OF en found] obtain r where
    r: "analyzePeriodicity [0, 3, 1, 0, 1, 0, 0, 0] 3 = Some r"
       "scale r = real (length [0, 3, 1, 0, 1, 0, 0, 0 :: real]) / fst (peakScan [0, 3, 1, 0, 1, 0, 0, 0] 3)"
    by blast
  have "scale r = 8 / (3 + 2 / (8 - 4 * sqrt 11))" using r(2) c by simp
  moreover have "3 < 8 / (3 + 2 / (8 - 4 * sqrt 11))"
    using chi clo by (simp add: pos_less_divide_eq)
  ultimately have "3 < scale r" by simp
  then show ?thesis using en found r(1) by simp
qed

text \<open>
  Claim C2, as amended. In sampleCenterOnly mode, and when the sample box holds no
  pixel, the low-resolution shader of main.js takes the pixel at
  \<open>(clamp(int(cx), 0, W-1), clamp(int(cy), 0, H-1))\<close>: the centre is truncated (for a
  centre that is not negative, its floor is taken), not rounded. The C# reconstruction
  has no sampleCenterOnly mode; its empty-box fallback does round the centre
  (\<open>Mathf.RoundToInt\<close>) before clamping.
\<close>

theorem center_lookup_truncates:
  "((uSampleCenterOnly u \<or> boxTexels img u fx fy = []) \<longrightarrow>
      fsDownsample img u fx fy =
        texelFetch img (clamp (glslInt (centerX u fx)) 0 (int (imgWidth img) - 1))
                       (clamp (glslInt (centerY u fy)) 0 (int (imgHeight img) - 1))) \<and>
   (0 \<le> centerX u fx \<longrightarrow> glslInt (centerX u fx) = \<lfloor>centerX u fx\<rfloor>) \<and>
   (0 \<le> centerY u fy \<longrightarrow> glslInt (centerY u fy) = \<lfloor>centerY u fy\<rfloor>) \<and>
   (boxPixels w h srcPixels (ox + real_of_int gridX * sx + sx * 0.5)
        (oy + real_of_int gridY * sy + sy * 0.5) (sx * 0.3) (sy * 0.3) = [] \<longrightarrow>
      cellColor w h srcPixels sx sy ox oy gridX gridY =
        srcPixels ! nat (mathfClamp (roundToInt (oy + real_of_int gridY * sy + sy * 0.5)) 0 (int h - 1) * int w
                         + mathfClamp (roundToInt (ox + real_of_int gridX * sx + sx * 0.5)) 0 (int w - 1)))"
  by (simp add: fsDownsample_def centerTexel_def cellColor_def Let_def glslInt_nonneg)

theorem center_lookup_truncates_witness:
  "uSampleCenterOnly \<lparr> uScaleX = 7 / 2, uOffsetX = 0, uScaleY = 7 / 2, uOffsetY = 0, uGridOffsetX = 0, uGridOffsetY = 0, uSampleCenterOnly = True \<rparr> \<and>
   fsDownsample \<lparr> imgWidth = 7, imgHeight = 7, texelFetch = \<lambda>x y. Vec4 (real_of_int x) (real_of_int y) 0 1 \<rparr>
     \<lparr> uScaleX = 7 / 2, uOffsetX = 0, uScaleY = 7 / 2, uOffsetY = 0, uGridOffsetX = 0, uGridOffsetY = 0, uSampleCenterOnly = True \<rparr> 0 0
     = texelFetch \<lparr> imgWidth = 7, imgHeight = 7, texelFetch = \<lambda>x y. Vec4 (real_of_int x) (real_of_int y) 0 1 \<rparr> 1 1 \<and>
   boxTexels \<lparr> imgWidth = 7, imgHeight = 7, texelFetch = \<lambda>x y. Vec4 (real_of_int x) (real_of_int y) 0 1 \<rparr>
     \<lparr> uScaleX = 3 / 2, uOffsetX = 3 / 4, uScaleY = 3 / 2, uOffsetY = 3 / 4, uGridOffsetX = 0, uGridOffsetY = 0, uSampleCenterOnly = False \<rparr> 0 0 = [] \<and>
   fsDownsample \<lparr> imgWidth = 7, imgHeight = 7, texelFetch = \<lambda>x y. Vec4 (real_of_int x) (real_of_int y) 0 1 \<rparr>
     \<lparr> uScaleX = 3 / 2, uOffsetX = 3 / 4, uScaleY = 3 / 2, uOffsetY = 3 / 4, uGridOffsetX = 0, uGridOffsetY = 0, uSampleCenterOnly = False \<rparr> 0 0
     = texelFetch \<lparr> imgWidth = 7, imgHeight = 7, texelFetch = \<lambda>x y. Vec4 (real_of_int x) (real_of_int y) 0 1 \<rparr> 1 1 \<and>
   boxPixels 3 3 [Vec4 0 0 0 1, Vec4 1 0 0 1, Vec4 2 0 0 1, Vec4 3 0 0 1, Vec4 4 0 0 1, Vec4 5 0 0 1, Vec4 6 0 0 1, Vec4 7 0 0 1, Vec4 8 0 0 1] (3 / 5) (3 / 5) (3 / 10) (3 / 10) = [] \<and>
   cellColor 3 3 [Vec4 0 0 0 1, Vec4 1 0 0 1, Vec4 2 0 0 1, Vec4 3 0 0 1, Vec4 4 0 0 1, Vec4 5 0 0 1, Vec4 6 0 0 1, Vec4 7 0 0 1, Vec4 8 0 0 1] 1 1 (1 / 10) (1 / 10) 0 0 = Vec4 4 0 0 1"
proof -
  have r: "roundToInt (3 / 5) = 1" by (simp add: roundToInt_def Let_def)
  have g: "glslInt (7 / 4) = 1" "glslInt (3 / 2) = 1" by (simp_all add: glslInt_def)
  have c: "clamp 1 0 6 = 1" "mathfClamp 1 0 2 = 1" by (simp_all add: clamp_def mathfClamp_def)
  note t1 = center_lookup_truncates[where u = "\<lparr> uScaleX = 7 / 2, uOffsetX = 0, uScaleY = 7 / 2, uOffsetY = 0, uGridOffsetX = 0, uGridOffsetY = 0, uSampleCenterOnly = True \<rparr>"
      and img = "\<lparr> imgWidth = 7, imgHeight = 7, texelFetch = \<lambda>x y. Vec4 (real_of_int x) (real_of_int y) 0 1 \<rparr>"
      and fx = 0 and fy = 0 and w = 3 and h = 3
      and srcPixels = "[Vec4 0 0 0 1, Vec4 1 0 0 1, Vec4 2 0 0 1, Vec4 3 0 0 1, Vec4 4 0 0 1, Vec4 5 0 0 1, Vec4 6 0 0 1, Vec4 7 0 0 1, Vec4 8 0 0 1]"
      and ox = "1 / 10" and oy = "1 / 10" and sx = 1 and sy = 1 and gridX = 0 and gridY = 0]
  note t2 = center_lookup_truncates[where u = "\<lparr> uScaleX = 3 / 2, uOffsetX = 3 / 4, uScaleY = 3 / 2, uOffsetY = 3 / 4, uGridOffsetX = 0, uGridOffsetY = 0, uSampleCenterOnly = False \<rparr>"
      and img = "\<lparr> imgWidth = 7, imgHeight = 7, texelFetch = \<lambda>x y. Vec4 (real_of_int x) (real_of_int y) 0 1 \<rparr>"
      and fx = 0 and fy = 0 and w = 3 and h = 3
      and srcPixels = "[Vec4 0 0 0 1, Vec4 1 0 0 1, Vec4 2 0 0 1, Vec4 3 0 0 1, Vec4 4 0 0 1, Vec4 5 0 0 1, Vec4 6 0 0 1, Vec4 7 0 0 1, Vec4 8 0 0 1]"
      and ox = "1 / 10" and oy = "1 / 10" and sx = 1 and sy = 1 and gridX = 0 and gridY = 0]
  have b: "boxPixels 3 3 [Vec4 0 0 0 1, Vec4 1 0 0 1, Vec4 2 0 0 1, Vec4 3 0 0 1, Vec4 4 0 0 1, Vec4 5 0 0 1, Vec4 6 0 0 1, Vec4 7 0 0 1, Vec4 8 0 0 1] (3 / 5) (3 / 5) (3 / 10) (3 / 10) = []" by (rule cs_box_empty)
  have 1: "fsDownsample \<lparr> imgWidth = 7, imgHeight = 7, texelFetch = \<lambda>x y. Vec4 (real_of_int x) (real_of_int y) 0 1 \<rparr>
     \<lparr> uScaleX = 7 / 2, uOffsetX = 0, uScaleY = 7 / 2, uOffsetY = 0, uGridOffsetX = 0, uGridOffsetY = 0, uSampleCenterOnly = True \<rparr> 0 0
     = texelFetch \<lparr> imgWidth = 7, imgHeight = 7, texelFetch = \<lambda>x y. Vec4 (real_of_int x) (real_of_int y) 0 1 \<rparr> 1 1"
    using t1 by (simp add: ramp_center g c)
  have 2: "fsDownsample \<lparr> imgWidth = 7, imgHeight = 7, texelFetch = \<lambda>x y. Vec4 (real_of_int x) (real_of_int y) 0 1 \<rparr>
     \<lparr> uScaleX = 3 / 2, uOffsetX = 3 / 4, uScaleY = 3 / 2, uOffsetY = 3 / 4, uGridOffsetX = 0, uGridOffsetY = 0, uSampleCenterOnly = False \<rparr> 0 0
     = texelFetch \<lparr> imgWidth = 7, imgHeight = 7, texelFetch = \<lambda>x y. Vec4 (real_of_int x) (real_of_int y) 0 1 \<rparr> 1 1"
    using t2 ramp_box_empty by (simp add: ramp_box_center g c)
  have 3: "cellColor 3 3 [Vec4 0 0 0 1, Vec4 1 0 0 1, Vec4 2 0 0 1, Vec4 3 0 0 1, Vec4 4 0 0 1, Vec4 5 0 0 1, Vec4 6 0 0 1, Vec4 7 0 0 1, Vec4 8 0 0 1] 1 1 (1 / 10) (1 / 10) 0 0 = Vec4 4 0 0 1"
    using t1 b by (simp add: r c)
  show ?thesis using 1 2 3 b ramp_box_empty by simp
qed

text \<open>
  A \<open>7 x 7\<close> image whose pixel \<open>(x, y)\<close> has the colour \<open>(x, y, 0, 1)\<close>. With
  scale 3.5 and offset 0 the centre of cell 0 is 1.75: the shader returns pixel
  \<open>(1, 1)\<close>, rounding would give \<open>(2, 2)\<close>. With scale 1.5 and offset 0.75 the box
  around the centre 1.5 is empty and the fallback returns pixel \<open>(1, 1)\<close> again.
\<close>

theorem center_lookup_does_not_round:
  "uSampleCenterOnly \<lparr> uScaleX = 7 / 2, uOffsetX = 0, uScaleY = 7 / 2, uOffsetY = 0, uGridOffsetX = 0, uGridOffsetY = 0, uSampleCenterOnly = True \<rparr> \<and>
   fsDownsample \<lparr> imgWidth = 7, imgHeight = 7, texelFetch = \<lambda>x y. Vec4 (real_of_int x) (real_of_int y) 0 1 \<rparr>
     \<lparr> uScaleX = 7 / 2, uOffsetX = 0, uScaleY = 7 / 2, uOffsetY = 0, uGridOffsetX = 0, uGridOffsetY = 0, uSampleCenterOnly = True \<rparr> 0 0
   \<noteq> texelFetch \<lparr> imgWidth = 7, imgHeight = 7, texelFetch = \<lambda>x y. Vec4 (real_of_int x) (real_of_int y) 0 1 \<rparr>
       (clamp (round (centerX \<lparr> uScaleX = 7 / 2, uOffsetX = 0, uScaleY = 7 / 2, uOffsetY = 0, uGridOffsetX = 0, uGridOffsetY = 0, uSampleCenterOnly = True \<rparr> 0)) 0 (7 - 1))
       (clamp (round (centerY \<lparr> uScaleX = 7 / 2, uOffsetX = 0, uScaleY = 7 / 2, uOffsetY = 0, uGridOffsetX = 0, uGridOffsetY = 0, uSampleCenterOnly = True \<rparr> 0)) 0 (7 - 1)) \<and>
   boxTexels \<lparr> imgWidth = 7, imgHeight = 7, texelFetch = \<lambda>x y. Vec4 (real_of_int x) (real_of_int y) 0 1 \<rparr>
     \<lparr> uScaleX = 3 / 2, uOffsetX = 3 / 4, uScaleY = 3 / 2, uOffsetY = 3 / 4, uGridOffsetX = 0, uGridOffsetY = 0, uSampleCenterOnly = False \<rparr> 0 0 = [] \<and>
   fsDownsample \<lparr> imgWidth = 7, imgHeight = 7, texelFetch = \<lambda>x y. Vec4 (real_of_int x) (real_of_int y) 0 1 \<rparr>
     \<lparr> uScaleX = 3 / 2, uOffsetX = 3 / 4, uScaleY = 3 / 2, uOffsetY = 3 / 4, uGridOffsetX = 0, uGridOffsetY = 0, uSampleCenterOnly = False \<rparr> 0 0
   \<noteq> texelFetch \<lparr> imgWidth = 7, imgHeight = 7, texelFetch = \<lambda>x y. Vec4 (real_of_int x) (real_of_int y) 0 1 \<rparr>
       (clamp (round (centerX \<lparr> uScaleX = 3 / 2, uOffsetX = 3 / 4, uScaleY = 3 / 2, uOffsetY = 3 / 4, uGridOffsetX = 0, uGridOffsetY = 0, uSampleCenterOnly = False \<rparr> 0)) 0 (7 - 1))
       (clamp (round (centerY \<lparr> uScaleX = 3 / 2, uOffsetX = 3 / 4, uScaleY = 3 / 2, uOffsetY = 3 / 4, uGridOffsetX = 0, uGridOffsetY = 0, uSampleCenterOnly = False \<rparr> 0)) 0 (7 - 1))"
proof -
  have r: "round (7 / 4 :: real) = 2" "round (3 / 2 :: real) = 2" by (simp_all add: round_def)
  have c: "clamp 2 0 6 = 2" by (simp add: clamp_def)
  show ?thesis
    by (simp add: ramp_center_only ramp_box_fallback ramp_box_empty ramp_center ramp_box_center r c)
qed

text \<open>
  Claim C3. The fitter does not return for every signal and every \<open>maxScale\<close>: when
  the energy test is passed and no bin lies in \<open>[minK, maxK]\<close>, \<open>chosenK\<close> keeps its
  initial \<open>-1\<close>, the scale \<open>N / chosenK\<close> is negative and the second normalising
  loop never ends. The signal \<open>[0, 1]\<close> with \<open>maxScale = 1\<close> is such an input
  (\<open>analyzePeriodicity_returns_iff\<close> names them all).
\<close>

theorem empty_band_never_returns:
  "(0.0001::real) \<le> sum_list [0, 1] \<and> sweepBins (length [0, 1 :: real]) 1 = [] \<and>
   chooseK [0, 1] 1 = (- 1, 0) \<and> finalScale [0, 1] 1 = - 2 \<and>
   analyzePeriodicity [0, 1] 1 = None"
  by (simp add: edge2_one_chooseK edge2_one_finalScale edge2_one_diverges sweepBins_def minK_def
      maxK_def)

text \<open>
  Claim C4. Every estimate the fitter returns has \<open>0 \<le> offset < scale\<close>, and the fitter
  returns one whenever the signal is flat or the band of bins is not empty. Past the
  energy test the offset is \<open>- phase * scale / (2 * pi)\<close> reduced modulo the scale into
  \<open>[0, scale)\<close>: for a positive scale the first loop adds the scale to a negative offset
  until it is not negative, the second subtracts it from an offset not below the scale
  until it is below, both return, and together they give \<open>off - floor (off / sc) * sc\<close>.
\<close>

theorem offset_in_range:
  "(\<forall>r. analyzePeriodicity data maxScale = Some r \<longrightarrow>
      0 \<le> offset r \<and> offset r < scale r \<and>
      (0.0001 \<le> sum_list data \<longrightarrow>
         scale r = finalScale data maxScale \<and>
         (\<exists>i::int. offset r = rawOffset data maxScale + real_of_int i * scale r) \<and>
         offset r = rawOffset data maxScale
                      - real_of_int \<lfloor>rawOffset data maxScale / scale r\<rfloor> * scale r)) \<and>
   (sum_list data < 0.0001 \<or>
      (maxScale \<noteq> 0 \<and> minK (length data) maxScale \<le> maxK (length data)) \<longrightarrow>
      (\<exists>r. analyzePeriodicity data maxScale = Some r \<and> 0 \<le> offset r \<and> offset r < scale r)) \<and>
   (\<forall>off sc. 0 < sc \<longrightarrow>
      normalizeUp off sc
        = Some (if off < 0 then off - real_of_int \<lfloor>off / sc\<rfloor> * sc else off) \<and>
      normalizeDown off sc
        = Some (if sc \<le> off then off - real_of_int \<lfloor>off / sc\<rfloor> * sc else off) \<and>
      (\<exists>y z. normalizeUp off sc = Some y \<and> normalizeDown y sc = Some z \<and>
             0 \<le> z \<and> z < sc \<and> z = off - real_of_int \<lfloor>off / sc\<rfloor> * sc))"
proof (intro conjI allI impI)
  fix r assume r: "analyzePeriodicity data maxScale = Some r"
  show "0 \<le> offset r"
  proof (cases "sum_list data < 0.0001")
    case True
    with r show ?thesis by (auto simp: analyzePeriodicity_def)
  next
    case False
    from analyze_Some_D[OF r False] show ?thesis by blast
  qed
  show "offset r < scale r"
  proof (cases "sum_list data < 0.0001")
    case True
    with r show ?thesis by (auto simp: analyzePeriodicity_def)
  next
    case False
    from analyze_Some_D[OF r False] show ?thesis by blast
  qed
  assume e: "0.0001 \<le> sum_list data"
  then have ne: "\<not> sum_list data < 0.0001" by simp
  note d = analyze_Some_D[OF r ne]
  show "scale r = finalScale data maxScale" using d by blast
  show "\<exists>i::int. offset r = rawOffset data maxScale + real_of_int i * scale r" using d by blast
  from d obtain i :: int where
    i: "offset r = rawOffset data maxScale + real_of_int i * scale r"
    and b: "0 \<le> offset r" "offset r < scale r" by blast
  have "0 < scale r" using b by linarith
  from floor_reduce_unique[OF this b i]
  show "offset r = rawOffset data maxScale
                      - real_of_int \<lfloor>rawOffset data maxScale / scale r\<rfloor> * scale r" .
next
  assume "sum_list data < 0.0001 \<or>
      (maxScale \<noteq> 0 \<and> minK (length data) maxScale \<le> maxK (length data))"
  then obtain r where r: "analyzePeriodicity data maxScale = Some r"
    using analyzePeriodicity_returns_iff[of data maxScale] by blast
  have "0 \<le> offset r \<and> offset r < scale r"
  proof (cases "sum_list data < 0.0001")
    case True
    with r show ?thesis by (auto simp: analyzePeriodicity_def)
  next
    case False
    from analyze_Some_D[OF r False] show ?thesis by blast
  qed
  with r show "\<exists>r. analyzePeriodicity data maxScale = Some r \<and> 0 \<le> offset r \<and> offset r < scale r"
    by blast
next
  fix off sc :: real assume sc: "0 < sc"
  show "normalizeUp off sc
        = Some (if off < 0 then off - real_of_int \<lfloor>off / sc\<rfloor> * sc else off)"
    by (rule normalizeUp_eq[OF sc])
  show "normalizeDown off sc
        = Some (if sc \<le> off then off - real_of_int \<lfloor>off / sc\<rfloor> * sc else off)"
    by (rule normalizeDown_eq[OF sc])
  from normalize_both[OF sc, of off] floor_reduce[OF sc, of off]
  show "\<exists>y z. normalizeUp off sc = Some y \<and> normalizeDown y sc = Some z \<and>
             0 \<le> z \<and> z < sc \<and> z = off - real_of_int \<lfloor>off / sc\<rfloor> * sc"
    by blast
qed

theorem offset_in_range_witness:
  "analyzePeriodicity [0, 1] 2 = Some \<lparr> scale = 2, offset = 1, confidence = 2 \<rparr> \<and>
   (0.0001::real) \<le> sum_list [0, 1] \<and>
   (2::real) \<noteq> 0 \<and> minK (length [0, 1 :: real]) 2 \<le> maxK (length [0, 1 :: real]) \<and>
   finalScale [0, 1] 2 = 2 \<and> rawOffset [0, 1] 2 = - 1 \<and>
   (\<exists>r. analyzePeriodicity [0, 1] 2 = Some r \<and> 0 \<le> offset r \<and> offset r < scale r) \<and>
   offset \<lparr> scale = 2, offset = 1, confidence = 2 \<rparr>
     = rawOffset [0, 1] 2
         - real_of_int \<lfloor>rawOffset [0, 1] 2 / scale \<lparr> scale = 2, offset = 1, confidence = 2 \<rparr>\<rfloor>
           * scale \<lparr> scale = 2, offset = 1, confidence = 2 \<rparr> \<and>
   (0::real) < 2 \<and>
   normalizeUp (- 1) 2 = Some 1 \<and> normalizeDown 1 2 = Some 1 \<and>
   normalizeUp (- 5) 2 = Some 1 \<and> normalizeUp 5 2 = Some 5 \<and>
   normalizeDown 5 2 = Some 1 \<and> normalizeDown (- 5) 2 = Some (- 5) \<and>
   (\<exists>y z. normalizeUp 5 2 = Some y \<and> normalizeDown y 2 = Some z \<and> 0 \<le> z \<and> z < 2 \<and> z = 1)"
proof -
  note t = offset_in_range[of "[0, 1]" 2]
  have h: "(0.0001::real) \<le> sum_list [0, 1]" "(2::real) \<noteq> 0"
    "minK (length [0, 1 :: real]) 2 \<le> maxK (length [0, 1 :: real])" "(0::real) < 2"
    by (simp_all add: minK_def maxK_def)
  have a: "offset \<lparr> scale = 2, offset = 1, confidence = 2 \<rparr>
     = rawOffset [0, 1] 2
         - real_of_int \<lfloor>rawOffset [0, 1] 2 / scale \<lparr> scale = 2, offset = 1, confidence = 2 \<rparr>\<rfloor>
           * scale \<lparr> scale = 2, offset = 1, confidence = 2 \<rparr>"
    using t edge2_result h(1) by blast
  have b: "\<exists>r. analyzePeriodicity [0, 1] 2 = Some r \<and> 0 \<le> offset r \<and> offset r < scale r"
    using t h(2,3) by blast
  note l = t[THEN conjunct2, THEN conjunct2, rule_format, OF h(4)]
  have u1: "normalizeUp (- 1) 2 = Some 1" using l[of "- 1"] by simp
  have d1: "normalizeDown 1 2 = Some 1" using l[of 1] by simp
  have u5: "normalizeUp (- 5) 2 = Some 1" using l[of "- 5"] by simp
  have u5': "normalizeUp 5 2 = Some 5" using l[of 5] by simp
  have d5: "normalizeDown 5 2 = Some 1" using l[of 5] by simp
  have d5': "normalizeDown (- 5) 2 = Some (- 5)" using l[of "- 5"] by simp
  have c: "\<exists>y z. normalizeUp 5 2 = Some y \<and> normalizeDown y 2 = Some z \<and> 0 \<le> z \<and> z < 2 \<and> z = 1"
    using l[of 5] by simp
  show ?thesis
    using edge2_result h edge2_finalScale edge2_rawOffset a b u1 d1 u5 u5' d5 d5' c by blast
qed

text \<open>
  Claim C5. The peak scan selects a bin (\<open>chosenK\<close> is not \<open>-1\<close> after it) exactly when
  some \<open>k\<close> strictly between \<open>minK\<close> and \<open>maxK\<close> has \<open>m[k] > m[k-1]\<close>, \<open>m[k] > m[k+1]\<close> and
  \<open>m[k] > 0.4 * globalMax\<close>, where \<open>m\<close> holds the DFT magnitudes, and the bin it selects
  is the smallest such \<open>k\<close>: no smaller \<open>k\<close> of the range passes the three tests, and
  the smallest \<open>k\<close> that passes them is the one selected. When no bin of the range
  passes, the scan leaves \<open>(-1, -1)\<close>.
\<close>

theorem first_peak_selected:
  "(\<forall>chosenK bestMag. peakScan data maxScale = (chosenK, bestMag) \<and> chosenK \<noteq> - 1 \<longrightarrow>
      (\<exists>k. minK (length data) maxScale < k \<and> k < maxK (length data) \<and>
           accepts (fst (coarseSweep data maxScale)) (snd (coarseSweep data maxScale) * 0.4) k \<and>
           (\<forall>j. minK (length data) maxScale < j \<and> j < k \<longrightarrow>
              \<not> accepts (fst (coarseSweep data maxScale)) (snd (coarseSweep data maxScale) * 0.4) j) \<and>
           (\<forall>j. k - 1 \<le> j \<and> j \<le> k + 1 \<longrightarrow>
              fst (coarseSweep data maxScale) ! j = magnitude (calculateDFTBin data (real j))) \<and>
           chosenK = parabolic (fst (coarseSweep data maxScale)) k \<and>
           bestMag = fst (coarseSweep data maxScale) ! k \<and>
           \<bar>chosenK - real k\<bar> < 1 / 2)) \<and>
   (\<forall>k. maxScale \<noteq> 0 \<and> minK (length data) maxScale < k \<and> k < maxK (length data) \<and>
        accepts (fst (coarseSweep data maxScale)) (snd (coarseSweep data maxScale) * 0.4) k \<and>
        (\<forall>j. minK (length data) maxScale < j \<and> j < k \<longrightarrow>
           \<not> accepts (fst (coarseSweep data maxScale)) (snd (coarseSweep data maxScale) * 0.4) j) \<longrightarrow>
        peakScan data maxScale
          = (parabolic (fst (coarseSweep data maxScale)) k, fst (coarseSweep data maxScale) ! k) \<and>
        fst (peakScan data maxScale) \<noteq> - 1) \<and>
   ((\<forall>k. minK (length data) maxScale < k \<and> k < maxK (length data) \<longrightarrow>
        \<not> accepts (fst (coarseSweep data maxScale)) (snd (coarseSweep data maxScale) * 0.4) k) \<longrightarrow>
      peakScan data maxScale = (- 1, - 1))"
proof (intro conjI allI impI)
  fix chosenK bestMag
  assume a: "peakScan data maxScale = (chosenK, bestMag) \<and> chosenK \<noteq> - 1"
  then have found: "fst (peakScan data maxScale) \<noteq> - 1" by simp
  from peak_found_D[OF found] obtain k where
    k: "minK (length data) maxScale < k" "k < maxK (length data)" "maxScale \<noteq> 0"
       "accepts (fst (coarseSweep data maxScale)) (snd (coarseSweep data maxScale) * 0.4) k"
       "\<forall>j. minK (length data) maxScale < j \<and> j < k \<longrightarrow>
              \<not> accepts (fst (coarseSweep data maxScale)) (snd (coarseSweep data maxScale) * 0.4) j"
       "peakScan data maxScale =
             (parabolic (fst (coarseSweep data maxScale)) k, fst (coarseSweep data maxScale) ! k)"
    by blast
  have c: "chosenK = parabolic (fst (coarseSweep data maxScale)) k"
    and b: "bestMag = fst (coarseSweep data maxScale) ! k"
    using k(6) a by simp_all
  have near: "\<bar>chosenK - real k\<bar> < 1 / 2"
    using parabolic_near(3,4)[OF k(4)] unfolding c by argo
  have nth: "\<forall>j. k - 1 \<le> j \<and> j \<le> k + 1 \<longrightarrow>
      fst (coarseSweep data maxScale) ! j = magnitude (calculateDFTBin data (real j))"
  proof (intro allI impI)
    fix j assume j: "k - 1 \<le> j \<and> j \<le> k + 1"
    have "minK (length data) maxScale \<le> j" "j \<le> maxK (length data)" using j k(1,2) by linarith+
    then show "fst (coarseSweep data maxScale) ! j = magnitude (calculateDFTBin data (real j))"
      by (rule coarseSweep_nth[OF k(3)])
  qed
  show "\<exists>k. minK (length data) maxScale < k \<and> k < maxK (length data) \<and>
           accepts (fst (coarseSweep data maxScale)) (snd (coarseSweep data maxScale) * 0.4) k \<and>
           (\<forall>j. minK (length data) maxScale < j \<and> j < k \<longrightarrow>
              \<not> accepts (fst (coarseSweep data maxScale)) (snd (coarseSweep data maxScale) * 0.4) j) \<and>
           (\<forall>j. k - 1 \<le> j \<and> j \<le> k + 1 \<longrightarrow>
              fst (coarseSweep data maxScale) ! j = magnitude (calculateDFTBin data (real j))) \<and>
           chosenK = parabolic (fst (coarseSweep data maxScale)) k \<and>
           bestMag = fst (coarseSweep data maxScale) ! k \<and>
           \<bar>chosenK - real k\<bar> < 1 / 2"
    using k(1,2,4,5) nth c b near by blast
next
  fix k
  assume a: "maxScale \<noteq> 0 \<and> minK (length data) maxScale < k \<and> k < maxK (length data) \<and>
        accepts (fst (coarseSweep data maxScale)) (snd (coarseSweep data maxScale) * 0.4) k \<and>
        (\<forall>j. minK (length data) maxScale < j \<and> j < k \<longrightarrow>
           \<not> accepts (fst (coarseSweep data maxScale)) (snd (coarseSweep data maxScale) * 0.4) j)"
  then have h: "maxScale \<noteq> 0" "minK (length data) maxScale < k" "k < maxK (length data)"
    "accepts (fst (coarseSweep data maxScale)) (snd (coarseSweep data maxScale) * 0.4) k"
    "\<forall>j. minK (length data) maxScale < j \<and> j < k \<longrightarrow>
           \<not> accepts (fst (coarseSweep data maxScale)) (snd (coarseSweep data maxScale) * 0.4) j"
    by blast+
  show "peakScan data maxScale
          = (parabolic (fst (coarseSweep data maxScale)) k, fst (coarseSweep data maxScale) ! k)"
    by (rule peak_first_D(1)[OF h])
  show "fst (peakScan data maxScale) \<noteq> - 1"
    by (rule peak_first_D(2)[OF h])
next
  assume n: "\<forall>k. minK (length data) maxScale < k \<and> k < maxK (length data) \<longrightarrow>
        \<not> accepts (fst (coarseSweep data maxScale)) (snd (coarseSweep data maxScale) * 0.4) k"
  have "\<forall>k\<in>set (scanBins (length data) maxScale).
          \<not> accepts (fst (coarseSweep data maxScale)) (snd (coarseSweep data maxScale) * 0.4) k"
    using n by (auto simp: set_scanBins split: if_splits)
  from findPeak_none[OF this] show "peakScan data maxScale = (- 1, - 1)"
    by (simp only: peakScan_eq)
qed

theorem first_peak_selected_witness:
  "coarseSweep [0, 3, 1, 0, 1, 0, 0, 0] 16 = ([0, sqrt 11, 3, sqrt 11, 1, 0], sqrt 11) \<and>
   minK (length [0, 3, 1, 0, 1, 0, 0, 0 :: real]) 16 = 1 \<and>
   maxK (length [0, 3, 1, 0, 1, 0, 0, 0 :: real]) = 4 \<and>
   \<not> accepts (fst (coarseSweep [0, 3, 1, 0, 1, 0, 0, 0] 16))
       (snd (coarseSweep [0, 3, 1, 0, 1, 0, 0, 0] 16) * 0.4) 2 \<and>
   accepts (fst (coarseSweep [0, 3, 1, 0, 1, 0, 0, 0] 16))
       (snd (coarseSweep [0, 3, 1, 0, 1, 0, 0, 0] 16) * 0.4) 3 \<and>
   peakScan [0, 3, 1, 0, 1, 0, 0, 0] 16
     = (parabolic (fst (coarseSweep [0, 3, 1, 0, 1, 0, 0, 0] 16)) 3,
        fst (coarseSweep [0, 3, 1, 0, 1, 0, 0, 0] 16) ! 3) \<and>
   peakScan [0, 3, 1, 0, 1, 0, 0, 0] 16 = (3 + 2 / (8 - 4 * sqrt 11), sqrt 11) \<and>
   coarseSweep [1, 0, 0, 0, 0, 0, 1, 0, 0, 0, 0, 0] 16 = ([0, 0, 2, 0, 2, 0, 2, 0], 2) \<and>
   maxK (length [1, 0, 0, 0, 0, 0, 1, 0, 0, 0, 0, 0 :: real]) = 6 \<and>
   accepts (fst (coarseSweep [1, 0, 0, 0, 0, 0, 1, 0, 0, 0, 0, 0] 16))
       (snd (coarseSweep [1, 0, 0, 0, 0, 0, 1, 0, 0, 0, 0, 0] 16) * 0.4) 2 \<and>
   accepts (fst (coarseSweep [1, 0, 0, 0, 0, 0, 1, 0, 0, 0, 0, 0] 16))
       (snd (coarseSweep [1, 0, 0, 0, 0, 0, 1, 0, 0, 0, 0, 0] 16) * 0.4) 4 \<and>
   peakScan [1, 0, 0, 0, 0, 0, 1, 0, 0, 0, 0, 0] 16
     = (parabolic (fst (coarseSweep [1, 0, 0, 0, 0, 0, 1, 0, 0, 0, 0, 0] 16)) 2,
        fst (coarseSweep [1, 0, 0, 0, 0, 0, 1, 0, 0, 0, 0, 0] 16) ! 2) \<and>
   peakScan [1, 0, 0, 0, 0, 0, 1, 0, 0, 0, 0, 0] 16 = (2, 2) \<and>
   (\<exists>k. minK (length [0, 3, 1, 0, 1, 0, 0, 0 :: real]) 16 < k \<and>
        k < maxK (length [0, 3, 1, 0, 1, 0, 0, 0 :: real]) \<and>
        accepts (fst (coarseSweep [0, 3, 1, 0, 1, 0, 0, 0] 16))
          (snd (coarseSweep [0, 3, 1, 0, 1, 0, 0, 0] 16) * 0.4) k \<and>
        (\<forall>j. minK (length [0, 3, 1, 0, 1, 0, 0, 0 :: real]) 16 < j \<and> j < k \<longrightarrow>
           \<not> accepts (fst (coarseSweep [0, 3, 1, 0, 1, 0, 0, 0] 16))
               (snd (coarseSweep [0, 3, 1, 0, 1, 0, 0, 0] 16) * 0.4) j) \<and>
        (\<forall>j. k - 1 \<le> j \<and> j \<le> k + 1 \<longrightarrow>
           fst (coarseSweep [0, 3, 1, 0, 1, 0, 0, 0] 16) ! j
             = magnitude (calculateDFTBin [0, 3, 1, 0, 1, 0, 0, 0] (real j))) \<and>
        3 + 2 / (8 - 4 * sqrt 11) = parabolic (fst (coarseSweep [0, 3, 1, 0, 1, 0, 0, 0] 16)) k \<and>
        sqrt 11 = fst (coarseSweep [0, 3, 1, 0, 1, 0, 0, 0] 16) ! k \<and>
        \<bar>3 + 2 / (8 - 4 * sqrt 11) - real k\<bar> < 1 / 2)"
proof -
  note s8 = first_peak_selected[of "[0, 3, 1, 0, 1, 0, 0, 0]" 16]
  note p12 = first_peak_selected[of "[1, 0, 0, 0, 0, 0, 1, 0, 0, 0, 0, 0]" 16]
  have r8: "minK (length [0, 3, 1, 0, 1, 0, 0, 0 :: real]) 16 = 1"
    "maxK (length [0, 3, 1, 0, 1, 0, 0, 0 :: real]) = 4"
    by (simp_all add: minK_def maxK_def)
  have r12: "minK (length [1, 0, 0, 0, 0, 0, 1, 0, 0, 0, 0, 0 :: real]) 16 = 1"
    "maxK (length [1, 0, 0, 0, 0, 0, 1, 0, 0, 0, 0, 0 :: real]) = 6"
    by (simp_all add: minK_def maxK_def)
  have a8: "\<not> accepts (fst (coarseSweep [0, 3, 1, 0, 1, 0, 0, 0] 16))
       (snd (coarseSweep [0, 3, 1, 0, 1, 0, 0, 0] 16) * 0.4) 2"
    "accepts (fst (coarseSweep [0, 3, 1, 0, 1, 0, 0, 0] 16))
       (snd (coarseSweep [0, 3, 1, 0, 1, 0, 0, 0] 16) * 0.4) 3"
    using sqrt11_bounds by (simp_all add: skew8_wide_sweep accepts_def numeral_3_eq_3)
  have a12: "accepts (fst (coarseSweep [1, 0, 0, 0, 0, 0, 1, 0, 0, 0, 0, 0] 16))
       (snd (coarseSweep [1, 0, 0, 0, 0, 0, 1, 0, 0, 0, 0, 0] 16) * 0.4) 2"
    "accepts (fst (coarseSweep [1, 0, 0, 0, 0, 0, 1, 0, 0, 0, 0, 0] 16))
       (snd (coarseSweep [1, 0, 0, 0, 0, 0, 1, 0, 0, 0, 0, 0] 16) * 0.4) 4"
    by (simp_all add: pair12_sweep accepts_def eval_nat_numeral)
  have f8: "\<forall>j. minK (length [0, 3, 1, 0, 1, 0, 0, 0 :: real]) 16 < j \<and> j < 3 \<longrightarrow>
           \<not> accepts (fst (coarseSweep [0, 3, 1, 0, 1, 0, 0, 0] 16))
               (snd (coarseSweep [0, 3, 1, 0, 1, 0, 0, 0] 16) * 0.4) j"
  proof (intro allI impI)
    fix j assume "minK (length [0, 3, 1, 0, 1, 0, 0, 0 :: real]) 16 < j \<and> j < 3"
    then have "j = 2" unfolding r8 by linarith
    then show "\<not> accepts (fst (coarseSweep [0, 3, 1, 0, 1, 0, 0, 0] 16))
               (snd (coarseSweep [0, 3, 1, 0, 1, 0, 0, 0] 16) * 0.4) j"
      using a8(1) by simp
  qed
  have f12: "\<forall>j. minK (length [1, 0, 0, 0, 0, 0, 1, 0, 0, 0, 0, 0 :: real]) 16 < j \<and> j < 2 \<longrightarrow>
           \<not> accepts (fst (coarseSweep [1, 0, 0, 0, 0, 0, 1, 0, 0, 0, 0, 0] 16))
               (snd (coarseSweep [1, 0, 0, 0, 0, 0, 1, 0, 0, 0, 0, 0] 16) * 0.4) j"
  proof (intro allI impI)
    fix j assume "minK (length [1, 0, 0, 0, 0, 0, 1, 0, 0, 0, 0, 0 :: real]) 16 < j \<and> j < 2"
    then have False unfolding r12 by linarith
    then show "\<not> accepts (fst (coarseSweep [1, 0, 0, 0, 0, 0, 1, 0, 0, 0, 0, 0] 16))
               (snd (coarseSweep [1, 0, 0, 0, 0, 0, 1, 0, 0, 0, 0, 0] 16) * 0.4) j" ..
  qed
  have ms: "(16::real) \<noteq> 0" by simp
  have in8: "minK (length [0, 3, 1, 0, 1, 0, 0, 0 :: real]) 16 < 3"
    "3 < maxK (length [0, 3, 1, 0, 1, 0, 0, 0 :: real])" unfolding r8 by simp_all
  have in12: "minK (length [1, 0, 0, 0, 0, 0, 1, 0, 0, 0, 0, 0 :: real]) 16 < 2"
    "2 < maxK (length [1, 0, 0, 0, 0, 0, 1, 0, 0, 0, 0, 0 :: real])" unfolding r12 by simp_all
  have c8: "peakScan [0, 3, 1, 0, 1, 0, 0, 0] 16
     = (parabolic (fst (coarseSweep [0, 3, 1, 0, 1, 0, 0, 0] 16)) 3,
        fst (coarseSweep [0, 3, 1, 0, 1, 0, 0, 0] 16) ! 3)"
    using s8 ms in8 a8(2) f8 by blast
  have c12: "peakScan [1, 0, 0, 0, 0, 0, 1, 0, 0, 0, 0, 0] 16
     = (parabolic (fst (coarseSweep [1, 0, 0, 0, 0, 0, 1, 0, 0, 0, 0, 0] 16)) 2,
        fst (coarseSweep [1, 0, 0, 0, 0, 0, 1, 0, 0, 0, 0, 0] 16) ! 2)"
    using p12 ms in12 a12(1) f12 by blast
  have ne: "3 + 2 / (8 - 4 * sqrt 11) \<noteq> - 1"
  proof -
    have "8 - 4 * sqrt 11 < - 4" using sqrt11_bounds by linarith
    then have "- 1 < 2 / (8 - 4 * sqrt 11)" by (simp add: field_simps)
    then show ?thesis by linarith
  qed
  have fw: "\<exists>k. minK (length [0, 3, 1, 0, 1, 0, 0, 0 :: real]) 16 < k \<and>
        k < maxK (length [0, 3, 1, 0, 1, 0, 0, 0 :: real]) \<and>
        accepts (fst (coarseSweep [0, 3, 1, 0, 1, 0, 0, 0] 16))
          (snd (coarseSweep [0, 3, 1, 0, 1, 0, 0, 0] 16) * 0.4) k \<and>
        (\<forall>j. minK (length [0, 3, 1, 0, 1, 0, 0, 0 :: real]) 16 < j \<and> j < k \<longrightarrow>
           \<not> accepts (fst (coarseSweep [0, 3, 1, 0, 1, 0, 0, 0] 16))
               (snd (coarseSweep [0, 3, 1, 0, 1, 0, 0, 0] 16) * 0.4) j) \<and>
        (\<forall>j. k - 1 \<le> j \<and> j \<le> k + 1 \<longrightarrow>
           fst (coarseSweep [0, 3, 1, 0, 1, 0, 0, 0] 16) ! j
             = magnitude (calculateDFTBin [0, 3, 1, 0, 1, 0, 0, 0] (real j))) \<and>
        3 + 2 / (8 - 4 * sqrt 11) = parabolic (fst (coarseSweep [0, 3, 1, 0, 1, 0, 0, 0] 16)) k \<and>
        sqrt 11 = fst (coarseSweep [0, 3, 1, 0, 1, 0, 0, 0] 16) ! k \<and>
        \<bar>3 + 2 / (8 - 4 * sqrt 11) - real k\<bar> < 1 / 2"
    using s8[THEN conjunct1, rule_format, of "3 + 2 / (8 - 4 * sqrt 11)" "sqrt 11"]
      skew8_wide_scan ne by blast
  show ?thesis
    using skew8_wide_sweep r8 a8 c8 skew8_wide_scan pair12_sweep r12(2) a12 c12 pair12_scan fw
    by blast
qed

text \<open>
  Claim C6. If no bin of the scan band passes the peak test (and the band
  \<open>[minK, maxK]\<close> has a bin at all), the fitter chooses the smallest \<open>k\<close> in
  \<open>[minK, maxK]\<close> whose magnitude is the global maximum, does not refine it, and
  returns the scale \<open>N / k\<close>.
\<close>

theorem fallback_global_max:
  assumes "0.0001 \<le> sum_list data" and "maxScale \<noteq> 0"
    and "minK (length data) maxScale \<le> maxK (length data)"
    and "\<forall>k. minK (length data) maxScale < k \<and> k < maxK (length data) \<longrightarrow>
           \<not> accepts (fst (coarseSweep data maxScale)) (snd (coarseSweep data maxScale) * 0.4) k"
  shows "\<exists>k r. minK (length data) maxScale \<le> k \<and> k \<le> maxK (length data) \<and>
           magnitude (calculateDFTBin data (real k)) = snd (coarseSweep data maxScale) \<and>
           (\<forall>j. minK (length data) maxScale \<le> j \<and> j \<le> maxK (length data) \<longrightarrow>
              magnitude (calculateDFTBin data (real j)) \<le> magnitude (calculateDFTBin data (real k))) \<and>
           (\<forall>j. minK (length data) maxScale \<le> j \<and> j < k \<longrightarrow>
              magnitude (calculateDFTBin data (real j)) \<noteq> magnitude (calculateDFTBin data (real k))) \<and>
           fst (chooseK data maxScale) = real k \<and>
           analyzePeriodicity data maxScale = Some r \<and> scale r = real (length data) / real k"
proof -
  define m where "m = fst (coarseSweep data maxScale)"
  define g where "g = snd (coarseSweep data maxScale)"
  have "\<forall>k\<in>set (scanBins (length data) maxScale). \<not> accepts m (g * 0.4) k"
    using assms(2,4) by (simp add: set_scanBins m_def g_def)
  then have nopeak: "fst (peakScan data maxScale) = - 1"
    by (simp add: peakScan_eq findPeak_none m_def g_def)
  from fallback_returns[OF assms(1-3) nopeak] obtain k r where
    k: "minK (length data) maxScale \<le> k" "k \<le> maxK (length data)" "m ! k = g"
       "\<forall>j. minK (length data) maxScale \<le> j \<and> j < k \<longrightarrow> m ! j \<noteq> g"
       "chooseK data maxScale = (real k, g)" and
    r: "analyzePeriodicity data maxScale = Some r" "scale r = real (length data) / real k"
    unfolding m_def g_def by blast
  have nth: "m ! j = magnitude (calculateDFTBin data (real j))"
    if "minK (length data) maxScale \<le> j" "j \<le> maxK (length data)" for j
    unfolding m_def using assms(2) that by (rule coarseSweep_nth)
  have le: "m ! j \<le> g" if "minK (length data) maxScale \<le> j" "j \<le> maxK (length data)" for j
    unfolding m_def g_def using assms(2) that by (rule coarseSweep_max(2))
  have kk: "magnitude (calculateDFTBin data (real k)) = g" using nth[OF k(1,2)] k(3) by simp
  have 1: "\<forall>j. minK (length data) maxScale \<le> j \<and> j \<le> maxK (length data) \<longrightarrow>
              magnitude (calculateDFTBin data (real j)) \<le> magnitude (calculateDFTBin data (real k))"
    using nth le kk by simp
  have 2: "\<forall>j. minK (length data) maxScale \<le> j \<and> j < k \<longrightarrow>
              magnitude (calculateDFTBin data (real j)) \<noteq> magnitude (calculateDFTBin data (real k))"
  proof (intro allI impI)
    fix j assume j: "minK (length data) maxScale \<le> j \<and> j < k"
    then have "j \<le> maxK (length data)" using k(2) by linarith
    then have "m ! j = magnitude (calculateDFTBin data (real j))" using j nth by simp
    moreover have "m ! j \<noteq> g" using k(4) j by simp
    ultimately show "magnitude (calculateDFTBin data (real j)) \<noteq> magnitude (calculateDFTBin data (real k))"
      using kk by simp
  qed
  have 3: "fst (chooseK data maxScale) = real k" using k(5) by simp
  show ?thesis using k(1,2) kk[unfolded g_def] 1 2 3 r by blast
qed

theorem fallback_global_max_witness:
  "(0.0001::real) \<le> sum_list [0, 1, 0, 0, 0, 0] \<and> (16::real) \<noteq> 0 \<and>
   minK (length [0, 1, 0, 0, 0, 0 :: real]) 16 = 1 \<and> maxK (length [0, 1, 0, 0, 0, 0 :: real]) = 3 \<and>
   coarseSweep [0, 1, 0, 0, 0, 0] 16 = ([0, 1, 1, 1, 0], 1) \<and>
   \<not> accepts [0, 1, 1, 1, 0] (1 * 0.4) 2 \<and>
   (\<exists>k r. minK (length [0, 1, 0, 0, 0, 0 :: real]) 16 \<le> k \<and> k \<le> maxK (length [0, 1, 0, 0, 0, 0 :: real]) \<and>
           magnitude (calculateDFTBin [0, 1, 0, 0, 0, 0] (real k)) = snd (coarseSweep [0, 1, 0, 0, 0, 0] 16) \<and>
           (\<forall>j. minK (length [0, 1, 0, 0, 0, 0 :: real]) 16 \<le> j \<and> j \<le> maxK (length [0, 1, 0, 0, 0, 0 :: real]) \<longrightarrow>
              magnitude (calculateDFTBin [0, 1, 0, 0, 0, 0] (real j)) \<le> magnitude (calculateDFTBin [0, 1, 0, 0, 0, 0] (real k))) \<and>
           (\<forall>j. minK (length [0, 1, 0, 0, 0, 0 :: real]) 16 \<le> j \<and> j < k \<longrightarrow>
              magnitude (calculateDFTBin [0, 1, 0, 0, 0, 0] (real j)) \<noteq> magnitude (calculateDFTBin [0, 1, 0, 0, 0, 0] (real k))) \<and>
           fst (chooseK [0, 1, 0, 0, 0, 0] 16) = real k \<and>
           analyzePeriodicity [0, 1, 0, 0, 0, 0] 16 = Some r \<and>
           scale r = real (length [0, 1, 0, 0, 0, 0 :: real]) / real k)"
proof -
  have mn: "minK (length [0, 1, 0, 0, 0, 0 :: real]) 16 = 1" by (simp add: minK_def)
  have mx: "maxK (length [0, 1, 0, 0, 0, 0 :: real]) = 3" by (simp add: maxK_def)
  have h1: "(0.0001::real) \<le> sum_list [0, 1, 0, 0, 0, 0]" and h2: "(16::real) \<noteq> 0" by simp_all
  have h3: "minK (length [0, 1, 0, 0, 0, 0 :: real]) 16 \<le> maxK (length [0, 1, 0, 0, 0, 0 :: real])"
    unfolding mn mx by simp
  have na: "\<not> accepts [0, 1, 1, 1, 0] (1 * 0.4) 2" by (simp add: accepts_def)
  have h4: "\<forall>k. minK (length [0, 1, 0, 0, 0, 0 :: real]) 16 < k \<and> k < maxK (length [0, 1, 0, 0, 0, 0 :: real]) \<longrightarrow>
           \<not> accepts (fst (coarseSweep [0, 1, 0, 0, 0, 0] 16)) (snd (coarseSweep [0, 1, 0, 0, 0, 0] 16) * 0.4) k"
  proof (intro allI impI)
    fix k :: nat
    assume "minK (length [0, 1, 0, 0, 0, 0 :: real]) 16 < k \<and> k < maxK (length [0, 1, 0, 0, 0, 0 :: real])"
    then have "k = 2" unfolding mn mx by linarith
    then show "\<not> accepts (fst (coarseSweep [0, 1, 0, 0, 0, 0] 16)) (snd (coarseSweep [0, 1, 0, 0, 0, 0] 16) * 0.4) k"
      using na by (simp add: spike6_sweep)
  qed
  from fallback_global_max[OF h1 h2 h3 h4] h1 h2 mn mx spike6_sweep na show ?thesis by blast
qed

text \<open>
  Claim C7. A signal whose total energy is below \<open>10^-4\<close> gives exactly
  \<open>{scale = 1, offset = 0, confidence = 0}\<close>; and for an image of one colour both
  edge signals are zero everywhere, so runAnalysis gets that estimate on both axes.
\<close>

theorem flat_signal_and_image:
  "(sum_list data < 0.0001 \<longrightarrow>
      analyzePeriodicity data maxScale = Some \<lparr> scale = 1, offset = 0, confidence = 0 \<rparr>) \<and>
   ((\<forall>x y. 0 \<le> x \<and> x < int (imgWidth img) \<and> 0 \<le> y \<and> y < int (imgHeight img)
        \<longrightarrow> texelFetch img x y = c) \<longrightarrow>
      colData img = replicate (imgWidth img) 0 \<and>
      rowData img = replicate (imgHeight img) 0 \<and>
      runAnalysis img maxScale =
        (Some \<lparr> scale = 1, offset = 0, confidence = 0 \<rparr>,
         Some \<lparr> scale = 1, offset = 0, confidence = 0 \<rparr>))"
proof (intro conjI impI)
  assume "sum_list data < 0.0001"
  then show "analyzePeriodicity data maxScale = Some \<lparr> scale = 1, offset = 0, confidence = 0 \<rparr>"
    by (rule analyze_flat)
next
  assume flat: "\<forall>x y. 0 \<le> x \<and> x < int (imgWidth img) \<and> 0 \<le> y \<and> y < int (imgHeight img)
        \<longrightarrow> texelFetch img x y = c"
  have "\<forall>x\<in>set [0 ..< imgWidth img]. chR (fsColDiff img (int x)) = 0"
    using flat_fsColDiff[OF flat] by simp
  then have "map (\<lambda>x. chR (fsColDiff img (int x))) [0 ..< imgWidth img]
      = replicate (length [0 ..< imgWidth img]) 0"
    by (rule map_zero_replicate)
  then show col: "colData img = replicate (imgWidth img) 0" by (simp add: colData_def)
  have "\<forall>y\<in>set [0 ..< imgHeight img]. chR (fsRowDiff img (int y)) = 0"
    using flat_fsRowDiff[OF flat] by simp
  then have "map (\<lambda>y. chR (fsRowDiff img (int y))) [0 ..< imgHeight img]
      = replicate (length [0 ..< imgHeight img]) 0"
    by (rule map_zero_replicate)
  then show row: "rowData img = replicate (imgHeight img) 0" by (simp add: rowData_def)
  have "sum_list (colData img) < 0.0001" "sum_list (rowData img) < 0.0001"
    unfolding col row by (simp_all add: sum_list_replicate)
  then show "runAnalysis img maxScale =
        (Some \<lparr> scale = 1, offset = 0, confidence = 0 \<rparr>,
         Some \<lparr> scale = 1, offset = 0, confidence = 0 \<rparr>)"
    by (simp add: runAnalysis_def analyze_flat)
qed

theorem flat_signal_and_image_witness:
  "sum_list [0, 1 / 100000] < (0.0001::real) \<and>
   analyzePeriodicity [0, 1 / 100000] 16 = Some \<lparr> scale = 1, offset = 0, confidence = 0 \<rparr> \<and>
   colData \<lparr> imgWidth = 3, imgHeight = 2, texelFetch = \<lambda>x y. Vec4 (1 / 2) (1 / 2) (1 / 2) 1 \<rparr>
     = [0, 0, 0] \<and>
   rowData \<lparr> imgWidth = 3, imgHeight = 2, texelFetch = \<lambda>x y. Vec4 (1 / 2) (1 / 2) (1 / 2) 1 \<rparr>
     = [0, 0] \<and>
   runAnalysis \<lparr> imgWidth = 3, imgHeight = 2, texelFetch = \<lambda>x y. Vec4 (1 / 2) (1 / 2) (1 / 2) 1 \<rparr> 16
     = (Some \<lparr> scale = 1, offset = 0, confidence = 0 \<rparr>,
        Some \<lparr> scale = 1, offset = 0, confidence = 0 \<rparr>)"
proof -
  have h: "sum_list [0, 1 / 100000] < (0.0001::real)" by simp
  show ?thesis
    using h flat_signal_and_image[of "[0, 1 / 100000]" 16
        "\<lparr> imgWidth = 3, imgHeight = 2, texelFetch = \<lambda>x y. Vec4 (1 / 2) (1 / 2) (1 / 2) 1 \<rparr>"
        "Vec4 (1 / 2) (1 / 2) (1 / 2) 1"]
    by (simp add: numeral_3_eq_3 numeral_2_eq_2)
qed

text \<open>
  Claim C8. With scales of at least 1, the cell index of every pixel \<open>(px, py)\<close> of a
  \<open>W x H\<close> image lies between the first and the last grid index of updateUI on
  both axes.
\<close>

theorem grid_coverage:
  assumes "1 \<le> sx" "1 \<le> sy" "0 \<le> px" "px < int W" "0 \<le> py" "py < int H"
  shows "minGrid ox sx \<le> fst (cellIndex sx ox sy oy px py) \<and>
         fst (cellIndex sx ox sy oy px py) \<le> maxGrid W ox sx \<and>
         minGrid oy sy \<le> snd (cellIndex sx ox sy oy px py) \<and>
         snd (cellIndex sx ox sy oy px py) \<le> maxGrid H oy sy"
proof -
  have "0 < sx" "0 < sy" using assms(1,2) by simp_all
  from gridIndex_bounds[OF this(1) assms(3,4)] gridIndex_bounds[OF this(2) assms(5,6)]
  show ?thesis by (simp add: cellIndex_def)
qed

theorem grid_coverage_witness:
  "(1::real) \<le> 4 \<and> (0::int) \<le> 5 \<and> (5::int) < int 8 \<and> 
   minGrid 1 4 = - 1 \<and> maxGrid 8 1 4 = 1 \<and> cellIndex 4 1 4 1 5 5 = (1, 1) \<and>
   minGrid 1 4 \<le> fst (cellIndex 4 1 4 1 5 5) \<and> fst (cellIndex 4 1 4 1 5 5) \<le> maxGrid 8 1 4 \<and>
   minGrid 1 4 \<le> snd (cellIndex 4 1 4 1 5 5) \<and> snd (cellIndex 4 1 4 1 5 5) \<le> maxGrid 8 1 4"
proof -
  have v: "minGrid 1 4 = - 1" "maxGrid 8 1 4 = 1" "cellIndex 4 1 4 1 5 5 = (1, 1)"
    by (simp_all add: minGrid_def maxGrid_def cellIndex_def gridIndex_def)
  show ?thesis using grid_coverage[of 4 4 5 8 5 8 1 1] v by simp
qed

text \<open>
  Claim C9. At the bin \<open>k\<close> the scan selects, a strict local maximum, the
  denominator \<open>d = m[k-1] - 2 m[k] + m[k+1]\<close> is negative and the refined bin lies
  strictly within \<open>(k - 1/2, k + 1/2)\<close>; so it is positive, and the scale
  \<open>N / k_refined\<close> the fitter returns is positive (in exact real arithmetic).
\<close>

theorem parabolic_refinement_bounded:
  assumes "0.0001 \<le> sum_list data" and "peakScan data maxScale = (chosenK, bestMag)"
    and "chosenK \<noteq> - 1"
  shows "\<exists>k y1 y2 y3 r.
           minK (length data) maxScale < k \<and> k < maxK (length data) \<and>
           y1 = fst (coarseSweep data maxScale) ! (k - 1) \<and>
           y2 = fst (coarseSweep data maxScale) ! k \<and>
           y3 = fst (coarseSweep data maxScale) ! (k + 1) \<and>
           y1 < y2 \<and> y3 < y2 \<and> y1 - 2 * y2 + y3 < 0 \<and>
           chosenK = real k + (y1 - y3) / (2 * (y1 - 2 * y2 + y3)) \<and>
           real k - 1 / 2 < chosenK \<and> chosenK < real k + 1 / 2 \<and> 0 < chosenK \<and>
           fst (chooseK data maxScale) = chosenK \<and>
           analyzePeriodicity data maxScale = Some r \<and>
           scale r = real (length data) / chosenK \<and> 0 < scale r"
proof -
  have c: "fst (peakScan data maxScale) = chosenK" using assms(2) by simp
  then have found: "fst (peakScan data maxScale) \<noteq> - 1" using assms(3) by simp
  from peak_found_scale[OF assms(1) found] obtain k r where
    k: "minK (length data) maxScale < k" "k < maxK (length data)"
       "chosenK = parabolic (fst (coarseSweep data maxScale)) k"
       "accepts (fst (coarseSweep data maxScale)) (snd (coarseSweep data maxScale) * 0.4) k"
       "0 < chosenK" and
    r: "analyzePeriodicity data maxScale = Some r" "scale r = real (length data) / chosenK"
       "0 < scale r"
    unfolding c by blast
  define m where "m = fst (coarseSweep data maxScale)"
  have acc: "m ! (k - 1) < m ! k" "m ! (k + 1) < m ! k"
    using k(4) by (simp_all add: accepts_def m_def)
  note pn = parabolic_near[OF k(4), folded m_def]
  have ck: "fst (chooseK data maxScale) = chosenK"
    using peak_found_chooseK[OF found] c by simp
  show ?thesis
    using k(1,2,5) acc pn(1) pn(2)[folded k(3)[folded m_def]] pn(3,4)[folded k(3)[folded m_def]] ck r
    unfolding m_def
    by (intro exI[of _ k] exI[of _ "fst (coarseSweep data maxScale) ! (k - 1)"]
        exI[of _ "fst (coarseSweep data maxScale) ! k"]
        exI[of _ "fst (coarseSweep data maxScale) ! (k + 1)"] exI[of _ r]) simp
qed

theorem parabolic_refinement_bounded_witness:
  "(0.0001::real) \<le> sum_list [0, 1, 0, 0, 1, 0] \<and> peakScan [0, 1, 0, 0, 1, 0] 16 = (2, 2) \<and>
   (2::real) \<noteq> - 1 \<and>
   (\<exists>k y1 y2 y3 r.
       minK (length [0, 1, 0, 0, 1, 0 :: real]) 16 < k \<and> k < maxK (length [0, 1, 0, 0, 1, 0 :: real]) \<and>
       y1 = fst (coarseSweep [0, 1, 0, 0, 1, 0] 16) ! (k - 1) \<and>
       y2 = fst (coarseSweep [0, 1, 0, 0, 1, 0] 16) ! k \<and>
       y3 = fst (coarseSweep [0, 1, 0, 0, 1, 0] 16) ! (k + 1) \<and>
       y1 < y2 \<and> y3 < y2 \<and> y1 - 2 * y2 + y3 < 0 \<and>
       2 = real k + (y1 - y3) / (2 * (y1 - 2 * y2 + y3)) \<and>
       real k - 1 / 2 < 2 \<and> 2 < real k + 1 / 2 \<and> (0::real) < 2 \<and>
       fst (chooseK [0, 1, 0, 0, 1, 0] 16) = 2 \<and>
       analyzePeriodicity [0, 1, 0, 0, 1, 0] 16 = Some r \<and>
       scale r = real (length [0, 1, 0, 0, 1, 0 :: real]) / 2 \<and> 0 < scale r)"
proof -
  have h: "(0.0001::real) \<le> sum_list [0, 1, 0, 0, 1, 0]" "(2::real) \<noteq> - 1" by simp_all
  from parabolic_refinement_bounded[OF h(1) comb6_scan h(2)] comb6_scan h show ?thesis by blast
qed




end
